theory Spec2Isabelle
  imports Main "HOL-Library.Sublist" "HOL-Library.Multiset"
begin

section \<open>Data model (src/renderer/src/types)\<close>

text \<open>
  A JavaScript \<^verbatim>\<open>Date\<close> is its time value: the number of milliseconds since the epoch,
  an integer. Comparing two dates with \<^verbatim>\<open><\<close> or \<^verbatim>\<open>></\<close> and \<^verbatim>\<open>getTime()\<close> read that
  number. Strings are lists of characters; the characters are taken to be ASCII code
  units. An optional field \<^verbatim>\<open>f?: T\<close> is a \<open>T option\<close>, \<open>None\<close> standing for
  \<^verbatim>\<open>undefined\<close>.
\<close>

type_synonym Date = int

record SermonVersion =
  version_id :: string
  version :: int
  version_title :: string
  version_date :: Date
  changes :: string
  version_filePath :: string

record PreachingInstance =
  instance_id :: string
  instance_date :: Date
  location :: string
  instance_audience :: "string option"
  instance_notes :: "string option"

record Sermon =
  sermon_id :: string
  title :: string
  date :: Date
  series :: "string option"
  seriesOrder :: "int option"
  tags :: "string list"
  summary :: "string option"
  references :: "string list option"
  filePath :: "string option"
  fileSize :: "int option"
  lastModified :: "Date option"
  versions :: "SermonVersion list option"
  preachingHistory :: "PreachingInstance list option"
  image :: "string option"
  sermon_type :: "string option"
  place :: "string option"

record ExpandedSermon = Sermon +
  originalDate :: Date
  preachingInstance :: "PreachingInstance option"

record Series =
  series_id :: string
  series_title :: string
  description :: "string option"
  startDate :: "Date option"
  endDate :: "Date option"
  series_sermons :: "string list"
  series_tags :: "string list"

section \<open>String primitives of the host language\<close>

text \<open>\<^verbatim>\<open>String.prototype.trim\<close>: strips white space at both ends (tab, line feed,
  vertical tab, form feed, carriage return, space).\<close>

definition isWhitespace :: "char \<Rightarrow> bool" where
  "isWhitespace c = (c \<in> set [CHR 0x09, CHR 0x0A, CHR 0x0B, CHR 0x0C, CHR 0x0D, CHR 0x20])"

definition trim :: "string \<Rightarrow> string" where
  "trim s = rev (dropWhile isWhitespace (rev (dropWhile isWhitespace s)))"

text \<open>Truthiness of an optional string: \<^verbatim>\<open>undefined\<close> and \<^verbatim>\<open>''\<close> are falsy.\<close>

definition truthy :: "string option \<Rightarrow> bool" where
  "truthy v = (case v of None \<Rightarrow> False | Some s \<Rightarrow> s \<noteq> [])"

text \<open>\<^verbatim>\<open>v || d\<close> on an optional string.\<close>

definition orElse :: "string option \<Rightarrow> string \<Rightarrow> string" where
  "orElse v d = (case v of None \<Rightarrow> d | Some s \<Rightarrow> if s = [] then d else s)"

text \<open>\<^verbatim>\<open>v || w\<close> where \<open>w\<close> may be absent too.\<close>

definition orElseOpt :: "string option \<Rightarrow> string option \<Rightarrow> string option" where
  "orElseOpt v w = (if truthy v then v else w)"

section \<open>Series reconciler (App.tsx, cleanupOrphanedSeries)\<close>

definition usedSeriesNames :: "Sermon list \<Rightarrow> string set" where
  "usedSeriesNames currentSermons =
     set (map (\<lambda>sermon. the (series sermon))
            (filter (\<lambda>sermon. truthy (series sermon) \<and> trim (the (series sermon)) \<noteq> [])
               currentSermons))"

definition demoSeriesNames :: "string set" where
  "demoSeriesNames = set [''Faith Series'', ''Love Series'']"

definition cleanupOrphanedSeries :: "Sermon list \<Rightarrow> Series list \<Rightarrow> Series list" where
  "cleanupOrphanedSeries currentSermons currentSeries =
     filter (\<lambda>s.
        if series_title s \<in> demoSeriesNames
        then series_title s \<in> usedSeriesNames currentSermons
        else series_title s \<in> usedSeriesNames currentSermons)
       currentSeries"

text \<open>The plain filter the reconciler is compared with: keep a series exactly when some
  sermon carries its title in a non-blank \<open>series\<close> field.\<close>

definition referenced :: "Sermon list \<Rightarrow> string \<Rightarrow> bool" where
  "referenced sermons t =
     (\<exists>sermon \<in> set sermons. series sermon = Some t \<and> t \<noteq> [] \<and> trim t \<noteq> [])"

definition keepReferenced :: "Sermon list \<Rightarrow> Series list \<Rightarrow> Series list" where
  "keepReferenced sermons ss = filter (\<lambda>s. referenced sermons (series_title s)) ss"

section \<open>Deleting a sermon (App.tsx, handleDeleteSermon)\<close>

text \<open>The two state cells the handler writes; the modal and selection flags it also
  resets carry no data of the catalog and are left out.\<close>

record Catalog =
  cat_sermons :: "Sermon list"
  cat_series :: "Series list"

definition handleDeleteSermon :: "string \<Rightarrow> Catalog \<Rightarrow> Catalog" where
  "handleDeleteSermon sermonId st =
     (let updatedSermons = filter (\<lambda>s. sermon_id s \<noteq> sermonId) (cat_sermons st);
          cleanedSeries = cleanupOrphanedSeries updatedSermons (cat_series st)
      in \<lparr>cat_sermons = updatedSermons, cat_series = cleanedSeries\<rparr>)"

section \<open>View projector (App.tsx, expandedSermons)\<close>

datatype ViewMode = ListView | GridView | DetailsView

text \<open>A preaching history counts when it is present and not empty
  (\<^verbatim>\<open>sermon.preachingHistory && sermon.preachingHistory.length > 0\<close>).\<close>

definition historyOf :: "Sermon \<Rightarrow> PreachingInstance list" where
  "historyOf sermon = (case preachingHistory sermon of None \<Rightarrow> [] | Some h \<Rightarrow> h)"

text \<open>One row of the details view for an instance: the sermon's fields with id, date
  and place overridden.\<close>

definition instanceRow :: "Sermon \<Rightarrow> PreachingInstance \<Rightarrow> ExpandedSermon" where
  "instanceRow sermon inst =
     Sermon.extend
       (sermon\<lparr>sermon_id := sermon_id sermon @ ''-'' @ instance_id inst,
               date := instance_date inst,
               place := Some (location inst)\<rparr>)
       (ExpandedSermon.fields (date sermon) (Some inst))"

text \<open>The row of a sermon without history (also \<^verbatim>\<open>sermonToExpanded\<close>).\<close>

definition plainRow :: "Sermon \<Rightarrow> ExpandedSermon" where
  "plainRow sermon =
     Sermon.extend
       (sermon\<lparr>place := Some (orElse (place sermon) [])\<rparr>)
       (ExpandedSermon.fields (date sermon) None)"

definition detailRows :: "Sermon \<Rightarrow> ExpandedSermon list" where
  "detailRows sermon =
     (if historyOf sermon \<noteq> [] then map (instanceRow sermon) (historyOf sermon)
      else [plainRow sermon])"

text \<open>\<^verbatim>\<open>reduce((latest, instance) => instance.date > latest.date ? instance : latest, h[0])\<close>\<close>

definition latestInstance :: "PreachingInstance list \<Rightarrow> PreachingInstance \<Rightarrow> PreachingInstance" where
  "latestInstance h h0 =
     foldl (\<lambda>latest inst. if instance_date inst > instance_date latest then inst else latest) h0 h"

definition collapsedRow :: "Sermon \<Rightarrow> ExpandedSermon" where
  "collapsedRow sermon =
     (case historyOf sermon of
        [] \<Rightarrow> plainRow sermon
      | h0 # rest \<Rightarrow>
          (let latest = latestInstance (h0 # rest) h0 in
           Sermon.extend
             (sermon\<lparr>sermon_id := sermon_id sermon,
                     date := instance_date latest,
                     place := Some (location latest)\<rparr>)
             (ExpandedSermon.fields (date sermon) (Some latest))))"

text \<open>\<^verbatim>\<open>Array.prototype.sort\<close> with the comparator \<^verbatim>\<open>a.date - b.date\<close> is a stable sort on
  the date; so is \<open>sort_key\<close>.\<close>

definition expandedSermons :: "ViewMode \<Rightarrow> Sermon list \<Rightarrow> ExpandedSermon list" where
  "expandedSermons viewMode ss =
     (if viewMode = DetailsView then sort_key date (concat (map detailRows ss))
      else map collapsedRow ss)"

section \<open>Saving from the edit form (SermonDetailsModal.tsx, handleSave)\<close>

text \<open>The form holds a \<^verbatim>\<open>Partial<Sermon>\<close>: every field may be absent.\<close>

record FormData =
  fd_title :: "string option"
  fd_date :: "Date option"
  fd_series :: "string option"
  fd_seriesOrder :: "int option"
  fd_summary :: "string option"
  fd_type :: "string option"
  fd_place :: "string option"
  fd_tags :: "string list option"
  fd_references :: "string list option"
  fd_image :: "string option"
  fd_preachingHistory :: "PreachingInstance list option"

text \<open>\<^verbatim>\<open>reduce((earliest, instance) => instance.date < earliest ? instance.date : earliest,
  h[0].date)\<close>\<close>

definition earliestDate :: "PreachingInstance list \<Rightarrow> Date \<Rightarrow> Date" where
  "earliestDate h d0 =
     foldl (\<lambda>earliest inst. if instance_date inst < earliest then instance_date inst else earliest)
       d0 h"

text \<open>The clock is read by \<^verbatim>\<open>new Date()\<close> (\<open>now\<close>) and by \<^verbatim>\<open>Date.now().toString()\<close>, once
  for the synthesized instance (\<open>stamp1\<close>) and once for a new sermon's id (\<open>stamp2\<close>).
  \<open>sermon\<close> is the sermon being edited, \<open>None\<close> for a new one.\<close>

definition handleSave :: "FormData \<Rightarrow> Sermon option \<Rightarrow> Date \<Rightarrow> string \<Rightarrow> string \<Rightarrow> Sermon" where
  "handleSave formData sermon now stamp1 stamp2 =
     (let formDate = (case fd_date formData of None \<Rightarrow> now | Some d \<Rightarrow> d);
          history0 = (case fd_preachingHistory formData of None \<Rightarrow> [] | Some h \<Rightarrow> h);
          history =
            (if sermon = None \<and> history0 = []
             then [\<lparr>instance_id = stamp1, instance_date = formDate,
                    location = orElse (fd_place formData) ''Unknown Location'',
                    instance_audience = None, instance_notes = None\<rparr>]
             else history0);
          firstDate =
            (case history of [] \<Rightarrow> formDate
             | h0 # rest \<Rightarrow> earliestDate (h0 # rest) (instance_date h0));
          firstInstance = find (\<lambda>inst. instance_date inst = firstDate) history;
          firstPlace =
            orElse (orElseOpt (map_option location firstInstance) (fd_place formData))
              ''Unknown Location''
      in \<lparr>sermon_id = orElse (map_option sermon_id sermon) stamp2,
          title = orElse (fd_title formData) ''Untitled Sermon'',
          date = firstDate,
          series = fd_series formData,
          seriesOrder = fd_seriesOrder formData,
          tags = (case fd_tags formData of None \<Rightarrow> [] | Some t \<Rightarrow> t),
          summary = fd_summary formData,
          references = Some (case fd_references formData of None \<Rightarrow> [] | Some r \<Rightarrow> r),
          filePath = Option.bind sermon filePath,
          fileSize = Option.bind sermon fileSize,
          lastModified = Option.bind sermon lastModified,
          versions = Option.bind sermon versions,
          preachingHistory = Some history,
          image = fd_image formData,
          sermon_type = fd_type formData,
          place = Some firstPlace\<rparr>)"

section \<open>The calendar of the host language's Date\<close>

text \<open>
  The day number of a time value, the day a year starts on and the length of a year are
  those of the language standard (\<^verbatim>\<open>Day\<close>, \<^verbatim>\<open>DayFromYear\<close>, \<^verbatim>\<open>DaysInYear\<close>).
  \<^verbatim>\<open>YearFromTime\<close> is the largest year starting on or before the day: it is found
  by walking from an estimate, first down, then up.
\<close>

definition msPerDay :: int where "msPerDay = 86400000"

definition Day :: "int \<Rightarrow> int" where "Day t = t div msPerDay"

definition DaysInYear :: "int \<Rightarrow> int" where
  "DaysInYear y =
     (if y mod 4 \<noteq> 0 then 365 else if y mod 100 \<noteq> 0 then 366
      else if y mod 400 \<noteq> 0 then 365 else 366)"

definition DayFromYear :: "int \<Rightarrow> int" where
  "DayFromYear y = 365 * (y - 1970) + (y - 1969) div 4 - (y - 1901) div 100 + (y - 1601) div 400"

lemma div_step:
  fixes x k :: int
  assumes "1 < k"
  shows "(x + 1) div k = x div k + (if k dvd x + 1 then 1 else 0)"
proof -
  have "(x + 1) div k = x div k + 1 div k + (x mod k + 1 mod k) div k"
    by (rule div_add1_eq)
  moreover have "1 div k = 0" "1 mod k = 1" using assms by simp_all
  ultimately have e: "(x + 1) div k = x div k + (x mod k + 1) div k" by simp
  have r: "0 \<le> x mod k" "x mod k < k" using assms by simp_all
  have m: "(x + 1) mod k = (x mod k + 1) mod k" by (simp add: mod_add_left_eq)
  show ?thesis
  proof (cases "x mod k = k - 1")
    case True
    then have "(x mod k + 1) div k = 1" "(x + 1) mod k = 0" using assms m by simp_all
    with e show ?thesis by (simp add: mod_eq_0_iff_dvd)
  next
    case False
    then have lt: "x mod k + 1 < k" using r by linarith
    then have "(x mod k + 1) div k = 0" using r by (simp add: div_pos_pos_trivial)
    moreover have "(x + 1) mod k = x mod k + 1" using lt r m by (simp add: mod_pos_pos_trivial)
    then have "\<not> k dvd x + 1" using r by (simp add: dvd_eq_mod_eq_0)
    ultimately show ?thesis using e by simp
  qed
qed

lemma DayFromYear_Suc: "DayFromYear (y + 1) = DayFromYear y + DaysInYear y"
proof -
  have a: "(y - 1968) div 4 = (y - 1969) div 4 + (if 4 dvd y then 1 else 0)"
    using div_step [of 4 "y - 1969"] by (simp add: dvd_diff_left_iff)
  have b: "(y - 1900) div 100 = (y - 1901) div 100 + (if 100 dvd y then 1 else 0)"
    using div_step [of 100 "y - 1901"] by (simp add: dvd_diff_left_iff)
  have c: "(y - 1600) div 400 = (y - 1601) div 400 + (if 400 dvd y then 1 else 0)"
    using div_step [of 400 "y - 1601"] by (simp add: dvd_diff_left_iff)
  have n: "y + 1 - 1969 = y - 1968" "y + 1 - 1901 = y - 1900" "y + 1 - 1601 = y - 1600"
    by simp_all
  have d: "100 dvd y \<Longrightarrow> 4 dvd y" by (rule dvd_trans [of 4 100]) simp_all
  have e: "400 dvd y \<Longrightarrow> 100 dvd y" by (rule dvd_trans [of 100 400]) simp_all
  have "DayFromYear (y + 1) = 365 * (y + 1 - 1970) + ((y - 1969) div 4 + (if 4 dvd y then 1 else 0))
      - ((y - 1901) div 100 + (if 100 dvd y then 1 else 0))
      + ((y - 1601) div 400 + (if 400 dvd y then 1 else 0))"
    by (simp only: DayFromYear_def n a b c)
  also have "\<dots> = DayFromYear y + DaysInYear y"
    using d e by (auto simp: DayFromYear_def DaysInYear_def mod_eq_0_iff_dvd)
  finally show ?thesis .
qed

lemma DaysInYear_bounds: "365 \<le> DaysInYear y \<and> DaysInYear y \<le> 366"
  by (simp add: DaysInYear_def)

function yearDown :: "int \<Rightarrow> int \<Rightarrow> int" where
  "yearDown y n = (if n < DayFromYear y then yearDown (y - 1) n else y)"
  by pat_completeness auto
termination
proof (relation "measure (\<lambda>(y, n). nat (DayFromYear y - n))")
  show "wf (measure (\<lambda>(y, n). nat (DayFromYear y - n)))" by simp
next
  fix y n :: int
  assume "n < DayFromYear y"
  moreover have "DayFromYear y = DayFromYear (y - 1) + DaysInYear (y - 1)"
    using DayFromYear_Suc [of "y - 1"] by simp
  ultimately show "((y - 1, n), (y, n)) \<in> measure (\<lambda>(y, n). nat (DayFromYear y - n))"
    using DaysInYear_bounds [of "y - 1"] by simp
qed

function yearUp :: "int \<Rightarrow> int \<Rightarrow> int" where
  "yearUp y n = (if DayFromYear (y + 1) \<le> n then yearUp (y + 1) n else y)"
  by pat_completeness auto
termination
proof (relation "measure (\<lambda>(y, n). nat (n - DayFromYear y))")
  show "wf (measure (\<lambda>(y, n). nat (n - DayFromYear y)))" by simp
next
  fix y n :: int
  assume "DayFromYear (y + 1) \<le> n"
  then show "((y + 1, n), (y, n)) \<in> measure (\<lambda>(y, n). nat (n - DayFromYear y))"
    using DayFromYear_Suc [of y] DaysInYear_bounds [of y] by simp
qed

definition YearFromDay :: "int \<Rightarrow> int" where
  "YearFromDay n = yearUp (yearDown (1970 + n div 365) n) n"

text \<open>Months are numbered from 0, as \<^verbatim>\<open>getMonth\<close> does; \<open>leap\<close> is 1 in a leap year.\<close>

definition InLeapYear :: "int \<Rightarrow> int" where
  "InLeapYear y = (if DaysInYear y = 366 then 1 else 0)"

definition monthStart :: "int \<Rightarrow> int \<Rightarrow> int" where
  "monthStart leap m =
     (if m = 0 then 0 else if m = 1 then 31 else if m = 2 then 59 + leap
      else if m = 3 then 90 + leap else if m = 4 then 120 + leap
      else if m = 5 then 151 + leap else if m = 6 then 181 + leap
      else if m = 7 then 212 + leap else if m = 8 then 243 + leap
      else if m = 9 then 273 + leap else if m = 10 then 304 + leap
      else 334 + leap)"

definition MonthFromDayInYear :: "int \<Rightarrow> int \<Rightarrow> int" where
  "MonthFromDayInYear leap d =
     (if d < 31 then 0 else if d < 59 + leap then 1 else if d < 90 + leap then 2
      else if d < 120 + leap then 3 else if d < 151 + leap then 4
      else if d < 181 + leap then 5 else if d < 212 + leap then 6
      else if d < 243 + leap then 7 else if d < 273 + leap then 8
      else if d < 304 + leap then 9 else if d < 334 + leap then 10 else 11)"

definition civil :: "int \<Rightarrow> int \<times> int \<times> int" where
  "civil n =
     (let y = YearFromDay n;
          d = n - DayFromYear y;
          leap = InLeapYear y;
          m = MonthFromDayInYear leap d
      in (y, m, d - monthStart leap m + 1))"

definition MakeDay :: "int \<Rightarrow> int \<Rightarrow> int \<Rightarrow> int" where
  "MakeDay year month dt =
     (let ym = year + month div 12;
          mn = month mod 12
      in DayFromYear ym + monthStart (InLeapYear ym) mn + dt - 1)"

text \<open>
  Local time is universal time plus a fixed offset \<open>tz\<close> in milliseconds (no daylight
  saving transitions are modelled). \<^verbatim>\<open>new Date(year, month, day)\<close> is local midnight of
  that day, a day beyond the month's end running over into the next month; a year
  from 0 to 99 means 1900 + year.
\<close>

definition newDate :: "int \<Rightarrow> int \<Rightarrow> int \<Rightarrow> int \<Rightarrow> Date" where
  "newDate tz year month dt =
     (let yr = (if 0 \<le> year \<and> year \<le> 99 then 1900 + year else year)
      in MakeDay yr month dt * msPerDay - tz)"

definition getFullYear :: "int \<Rightarrow> Date \<Rightarrow> int" where
  "getFullYear tz t = fst (civil (Day (t + tz)))"

definition getMonth :: "int \<Rightarrow> Date \<Rightarrow> int" where
  "getMonth tz t = fst (snd (civil (Day (t + tz))))"

definition getDate :: "int \<Rightarrow> Date \<Rightarrow> int" where
  "getDate tz t = snd (snd (civil (Day (t + tz))))"

section \<open>More string primitives\<close>

abbreviation dquote :: char where "dquote \<equiv> CHR 0x22"

abbreviation newline :: char where "newline \<equiv> CHR 0x0A"

text \<open>\<^verbatim>\<open>toLowerCase\<close> on ASCII letters; other characters are unchanged.\<close>

definition lowerChar :: "char \<Rightarrow> char" where
  "lowerChar c = (let n = (of_char c :: nat) in if 65 \<le> n \<and> n \<le> 90 then char_of (n + 32) else c)"

definition toLowerCase :: "string \<Rightarrow> string" where
  "toLowerCase s = map lowerChar s"

text \<open>\<^verbatim>\<open>h.includes(n)\<close>: \<open>n\<close> occurs in \<open>h\<close> as a contiguous piece.\<close>

fun strIncludes :: "string \<Rightarrow> string \<Rightarrow> bool" where
  "strIncludes [] n = (n = [])"
| "strIncludes (c # cs) n = (prefix n (c # cs) \<or> strIncludes cs n)"

text \<open>\<^verbatim>\<open>s.split(sep)\<close> for a one-character separator: never an empty list.\<close>

fun splitAcc :: "char \<Rightarrow> string \<Rightarrow> string \<Rightarrow> string list" where
  "splitAcc sep cur [] = [cur]"
| "splitAcc sep cur (c # cs) =
     (if c = sep then cur # splitAcc sep [] cs else splitAcc sep (cur @ [c]) cs)"

definition splitOn :: "char \<Rightarrow> string \<Rightarrow> string list" where
  "splitOn sep s = splitAcc sep [] s"

text \<open>\<^verbatim>\<open>xs.join(sep)\<close>\<close>

fun joinWith :: "string \<Rightarrow> string list \<Rightarrow> string" where
  "joinWith sep [] = []"
| "joinWith sep [x] = x"
| "joinWith sep (x # y # ys) = x @ sep @ joinWith sep (y # ys)"

text \<open>\<^verbatim>\<open>v.replace(/"/g, '')\<close>\<close>

definition stripQuotes :: "string \<Rightarrow> string" where
  "stripQuotes v = filter (\<lambda>c. c \<noteq> dquote) v"

text \<open>\<^verbatim>\<open>xs.findIndex(p)\<close>: the first position where \<open>p\<close> holds, or -1.\<close>

fun findIndex :: "('a \<Rightarrow> bool) \<Rightarrow> 'a list \<Rightarrow> int" where
  "findIndex p [] = - 1"
| "findIndex p (x # xs) =
     (if p x then 0 else (let i = findIndex p xs in if i = - 1 then - 1 else i + 1))"

text \<open>Decimal digits: \<^verbatim>\<open>\d\<close> of a regular expression, \<^verbatim>\<open>parseInt(s, 10)\<close> on a string of
  digits, and a number written with a fixed count of digits (\<^verbatim>\<open>padStart\<close> with zeros).\<close>

definition isDigit :: "char \<Rightarrow> bool" where
  "isDigit c = (c \<in> set ''0123456789'')"

definition digitVal :: "char \<Rightarrow> int" where
  "digitVal c = int (of_char c) - 48"

definition parseInt :: "string \<Rightarrow> int" where
  "parseInt s = foldl (\<lambda>acc c. 10 * acc + digitVal c) 0 s"

definition digitChar :: "int \<Rightarrow> char" where
  "digitChar d = char_of (nat (48 + d))"

fun padDigits :: "nat \<Rightarrow> int \<Rightarrow> string" where
  "padDigits 0 n = []"
| "padDigits (Suc k) n = padDigits k (n div 10) @ [digitChar (n mod 10)]"

section \<open>Date parser of the import (App.tsx, parseDate)\<close>

text \<open>A regular expression \<^verbatim>\<open>^(\d{a,b})S(\d{c,d})S(\d{e,f})$\<close> with a separator \<open>S\<close> that
  is not a digit matches exactly the strings that \<open>S\<close> splits into three groups of
  digits of those lengths.\<close>

definition digitGroup :: "nat \<Rightarrow> nat \<Rightarrow> string \<Rightarrow> bool" where
  "digitGroup lo hi g = (lo \<le> length g \<and> length g \<le> hi \<and> list_all isDigit g)"

text \<open>\<^verbatim>\<open>/^(\d{1,2})S(\d{1,2})S(\d{4})$/\<close>: the day, the month and the year.\<close>

definition matchDMY :: "char \<Rightarrow> string \<Rightarrow> (int \<times> int \<times> int) option" where
  "matchDMY sep s =
     (case splitOn sep s of
        [dayStr, monthStr, yearStr] \<Rightarrow>
          if digitGroup 1 2 dayStr \<and> digitGroup 1 2 monthStr \<and> digitGroup 4 4 yearStr
          then Some (parseInt dayStr, parseInt monthStr, parseInt yearStr) else None
      | _ \<Rightarrow> None)"

text \<open>\<^verbatim>\<open>/^(\d{4})-(\d{1,2})-(\d{1,2})$/\<close>, again as day, month and year.\<close>

definition matchISO :: "string \<Rightarrow> (int \<times> int \<times> int) option" where
  "matchISO s =
     (case splitOn CHR ''-'' s of
        [yearStr, monthStr, dayStr] \<Rightarrow>
          if digitGroup 4 4 yearStr \<and> digitGroup 1 2 monthStr \<and> digitGroup 1 2 dayStr
          then Some (parseInt dayStr, parseInt monthStr, parseInt yearStr) else None
      | _ \<Rightarrow> None)"

definition inRange :: "int \<Rightarrow> int \<Rightarrow> int \<Rightarrow> bool" where
  "inRange day month year =
     (day \<ge> 1 \<and> day \<le> 31 \<and> month \<ge> 1 \<and> month \<le> 12 \<and> year \<ge> 1900 \<and> year \<le> 2100)"

text \<open>The date is built and read back: \<^verbatim>\<open>getDate() === day && getMonth() === month - 1 &&
  getFullYear() === year\<close>.\<close>

definition roundTrips :: "int \<Rightarrow> int \<Rightarrow> int \<Rightarrow> int \<Rightarrow> bool" where
  "roundTrips tz day month year =
     (let parsedDate = newDate tz year (month - 1) day
      in getDate tz parsedDate = day \<and> getMonth tz parsedDate = month - 1
         \<and> getFullYear tz parsedDate = year)"

datatype DateFormat = DashDMY | SlashDMY | IsoYMD

text \<open>What the parser writes to the console.\<close>

datatype LogEntry =
    WarnEmpty | LogAttempt | LogParsed DateFormat | WarnInvalidComponents | WarnOutOfRange
  | ErrorFailed

text \<open>\<open>now\<close> is what \<^verbatim>\<open>new Date()\<close> returns when the parser falls back to it. Only the
  first format reports why a match was discarded.\<close>

definition parseDate :: "int \<Rightarrow> Date \<Rightarrow> string \<Rightarrow> Date \<times> LogEntry list" where
  "parseDate tz now dateString =
     (if dateString = [] \<or> trim dateString = [] then (now, [WarnEmpty])
      else
        let trimmed = trim dateString;
            first =
              (case matchDMY CHR ''-'' trimmed of
                 None \<Rightarrow> (None, [])
               | Some (day, month, year) \<Rightarrow>
                   if inRange day month year then
                     if roundTrips tz day month year
                     then (Some (newDate tz year (month - 1) day), [LogParsed DashDMY])
                     else (None, [WarnInvalidComponents])
                   else (None, [WarnOutOfRange]));
            second =
              (case matchDMY CHR ''/'' trimmed of
                 None \<Rightarrow> None
               | Some (day, month, year) \<Rightarrow>
                   if inRange day month year \<and> roundTrips tz day month year
                   then Some (newDate tz year (month - 1) day) else None);
            third =
              (case matchISO trimmed of
                 None \<Rightarrow> None
               | Some (day, month, year) \<Rightarrow>
                   if inRange day month year \<and> roundTrips tz day month year
                   then Some (newDate tz year (month - 1) day) else None)
        in case fst first of
             Some d \<Rightarrow> (d, LogAttempt # snd first)
           | None \<Rightarrow>
              (case second of
                 Some d \<Rightarrow> (d, LogAttempt # snd first @ [LogParsed SlashDMY])
               | None \<Rightarrow>
                  (case third of
                     Some d \<Rightarrow> (d, LogAttempt # snd first @ [LogParsed IsoYMD])
                   | None \<Rightarrow> (now, LogAttempt # snd first @ [ErrorFailed]))))"

section \<open>Tabular import (App.tsx, parseCSV)\<close>

text \<open>The loop of \<^verbatim>\<open>parseCSVLine\<close> over the characters still to read, with its three
  variables \<open>result\<close>, \<open>current\<close> and \<open>inQuotes\<close>. The second equation is the last
  character of the line, where \<^verbatim>\<open>nextChar\<close> is \<^verbatim>\<open>undefined\<close>.\<close>

fun parseCSVLoop :: "string list \<Rightarrow> string \<Rightarrow> bool \<Rightarrow> string \<Rightarrow> string list" where
  "parseCSVLoop result current inQuotes [] = result @ [trim current]"
| "parseCSVLoop result current inQuotes [c] =
     (if c = dquote then parseCSVLoop result current (\<not> inQuotes) []
      else if c = CHR '','' \<and> \<not> inQuotes then parseCSVLoop (result @ [trim current]) [] inQuotes []
      else parseCSVLoop result (current @ [c]) inQuotes [])"
| "parseCSVLoop result current inQuotes (c # nextChar # rest) =
     (if c = dquote then
        (if inQuotes \<and> nextChar = dquote
         then parseCSVLoop result (current @ [dquote]) inQuotes rest
         else parseCSVLoop result current (\<not> inQuotes) (nextChar # rest))
      else if c = CHR '','' \<and> \<not> inQuotes
      then parseCSVLoop (result @ [trim current]) [] inQuotes (nextChar # rest)
      else parseCSVLoop result (current @ [c]) inQuotes (nextChar # rest))"

definition parseCSVLine :: "string \<Rightarrow> string list" where
  "parseCSVLine line = parseCSVLoop [] [] False line"

definition headersOf :: "string \<Rightarrow> string list" where
  "headersOf headerLine = map (\<lambda>h. toLowerCase (stripQuotes h)) (parseCSVLine headerLine)"

fun getColumnIndex :: "string list \<Rightarrow> string list \<Rightarrow> int" where
  "getColumnIndex headers [] = - 1"
| "getColumnIndex headers (name # names) =
     (let index = findIndex (\<lambda>h. strIncludes h (toLowerCase name)) headers
      in if index \<noteq> - 1 then index else getColumnIndex headers names)"

record ColumnMap =
  col_title :: int
  col_date :: int
  col_series :: int
  col_summary :: int
  col_tags :: int
  col_references :: int
  col_type :: int
  col_place :: int

definition columnMap :: "string list \<Rightarrow> ColumnMap" where
  "columnMap headers =
     \<lparr>col_title = getColumnIndex headers [''title'', ''sermon'', ''name'', ''subject''],
      col_date = getColumnIndex headers [''date'', ''preached'', ''when'', ''time''],
      col_series = getColumnIndex headers [''series'', ''collection'', ''group''],
      col_summary = getColumnIndex headers [''summary'', ''description'', ''notes'', ''content''],
      col_tags = getColumnIndex headers [''tags'', ''keywords'', ''categories''],
      col_references = getColumnIndex headers [''references'', ''scripture'', ''verses'', ''bible''],
      col_type = getColumnIndex headers [''type'', ''category'', ''kind''],
      col_place = getColumnIndex headers [''place'', ''location'', ''venue'', ''church'']\<rparr>"

definition getValue :: "string list \<Rightarrow> int \<Rightarrow> string \<Rightarrow> string" where
  "getValue vals columnIndex defaultValue =
     (if columnIndex = - 1 \<or> columnIndex \<ge> int (length vals) then defaultValue
      else orElse (Some (vals ! nat columnIndex)) defaultValue)"

text \<open>\<^verbatim>\<open>v ? v.split(';').filter(t => t.length > 0) : []\<close>\<close>

definition splitList :: "string \<Rightarrow> string list" where
  "splitList v = (if v = [] then [] else filter (\<lambda>t. length t > 0) (splitOn CHR '';'' v))"

text \<open>What the import reads from outside while it handles line \<open>i\<close>: the zone offset,
  the clock (\<^verbatim>\<open>new Date()\<close> in the date parser), and the identifiers made from the
  clock and the random generator (\<^verbatim>\<open>Date.now().toString() + Math.random()\<close>) or from the
  clock alone (\<^verbatim>\<open>Date.now().toString()\<close>).\<close>

record ImportEnv =
  tzOffset :: int
  clock :: "nat \<Rightarrow> Date"
  randomId :: "nat \<Rightarrow> string"
  stampId :: "nat \<Rightarrow> string"

text \<open>\<^verbatim>\<open>reduce((earliest, instance) => instance.date < earliest.date ? instance : earliest)\<close>
  without a start value: the first element starts, the others are folded in.\<close>

definition earliestInstance :: "PreachingInstance \<Rightarrow> PreachingInstance list \<Rightarrow> PreachingInstance" where
  "earliestInstance h0 rest =
     foldl (\<lambda>earliest inst. if instance_date inst < instance_date earliest then inst else earliest)
       h0 rest"

text \<open>The branch for a title that is already there: the instance is pushed onto the
  sermon's history and the sermon's date is set to the earliest date of the history.
  The history just received an element, so the reduction has a first element.\<close>

definition mergeInstance :: "PreachingInstance \<Rightarrow> Sermon \<Rightarrow> Sermon" where
  "mergeInstance newPreachingInstance existingSermon =
     (let history = historyOf existingSermon @ [newPreachingInstance];
          earliestDate =
            (case history of [] \<Rightarrow> instance_date newPreachingInstance
             | h0 # rest \<Rightarrow> instance_date (earliestInstance h0 rest))
      in existingSermon\<lparr>preachingHistory := Some history, date := earliestDate\<rparr>)"

text \<open>The object that \<^verbatim>\<open>sermons.find\<close> returned is changed in place: in the list, the
  first sermon with that title is.\<close>

fun updateFirst :: "('a \<Rightarrow> bool) \<Rightarrow> ('a \<Rightarrow> 'a) \<Rightarrow> 'a list \<Rightarrow> 'a list" where
  "updateFirst p f [] = []"
| "updateFirst p f (x # xs) = (if p x then f x # xs else x # updateFirst p f xs)"

text \<open>One round of the loop over the data lines: line \<open>i\<close> with the sermons so far.\<close>

definition importRow :: "ImportEnv \<Rightarrow> ColumnMap \<Rightarrow> Sermon list \<Rightarrow> nat \<times> string \<Rightarrow> Sermon list" where
  "importRow env cm sermons row =
     (let i = fst row;
          vals = map stripQuotes (parseCSVLine (snd row))
      in if list_all (\<lambda>v. v = []) vals then sermons
         else
           let dateValue = getValue vals (col_date cm) [];
               sermonDate = fst (parseDate (tzOffset env) (clock env i) dateValue);
               locationValue = getValue vals (col_place cm) ''Unknown Location'';
               referencesValue = getValue vals (col_references cm) [];
               typeValue = getValue vals (col_type cm) [];
               title' = getValue vals (col_title cm) ''Untitled'';
               sameTitle = (\<lambda>s. toLowerCase (title s) = toLowerCase title')
           in case find sameTitle sermons of
                Some existingSermon \<Rightarrow>
                  updateFirst sameTitle
                    (mergeInstance
                       \<lparr>instance_id = randomId env i, instance_date = sermonDate,
                        location = locationValue,
                        instance_audience = None, instance_notes = None\<rparr>)
                    sermons
              | None \<Rightarrow>
                  sermons @
                  [\<lparr>sermon_id = randomId env i,
                    title = title',
                    date = sermonDate,
                    series = (let v = getValue vals (col_series cm) [] in if v = [] then None else Some v),
                    seriesOrder = None,
                    tags = splitList (getValue vals (col_tags cm) []),
                    summary = Some (getValue vals (col_summary cm) []),
                    references = Some (splitList referencesValue),
                    filePath = None, fileSize = None, lastModified = None, versions = None,
                    preachingHistory = Some
                      [\<lparr>instance_id = stampId env i, instance_date = sermonDate,
                        location = locationValue,
                        instance_audience = None, instance_notes = None\<rparr>],
                    image = None,
                    sermon_type = Some typeValue,
                    place = Some locationValue\<rparr>])"

definition parseCSV :: "ImportEnv \<Rightarrow> string \<Rightarrow> Sermon list" where
  "parseCSV env csvContent =
     (let lines = splitOn newline (trim csvContent)
      in if length lines < 2 then []
         else
           let cm = columnMap (headersOf (hd lines))
           in foldl (importRow env cm) [] (zip [1 ..< length lines] (tl lines)))"

section \<open>Tabular export (App.tsx, sermonsToCsv)\<close>

text \<open>\<^verbatim>\<open>toISOString\<close>: the universal-time calendar fields, the year with four digits
  from 0 to 9999 and with a sign and six digits otherwise.\<close>

definition toISOString :: "Date \<Rightarrow> string" where
  "toISOString t =
     (let (y, m, d) = civil (Day t);
          ms = t mod msPerDay;
          yearStr = (if 0 \<le> y \<and> y \<le> 9999 then padDigits 4 y
                     else (if y < 0 then ''-'' else ''+'') @ padDigits 6 (abs y))
      in yearStr @ ''-'' @ padDigits 2 (m + 1) @ ''-'' @ padDigits 2 d @ ''T''
         @ padDigits 2 (ms div 3600000) @ '':'' @ padDigits 2 (ms div 60000 mod 60) @ '':''
         @ padDigits 2 (ms div 1000 mod 60) @ ''.'' @ padDigits 3 (ms mod 1000) @ ''Z'')"

definition quoted :: "string \<Rightarrow> string" where
  "quoted v = [dquote] @ v @ [dquote]"

definition csvHeaders :: "string list" where
  "csvHeaders = [''Title'', ''Date'', ''Series'', ''Summary'', ''Tags'', ''References'', ''Type'', ''Place'']"

definition csvRow :: "Sermon \<Rightarrow> string" where
  "csvRow sermon =
     joinWith '',''
       [quoted (title sermon),
        quoted (hd (splitOn CHR ''T'' (toISOString (date sermon)))),
        quoted (orElse (series sermon) []),
        quoted (orElse (summary sermon) []),
        quoted (joinWith '';'' (tags sermon)),
        quoted (case references sermon of None \<Rightarrow> [] | Some r \<Rightarrow> joinWith '';'' r),
        quoted (orElse (sermon_type sermon) []),
        quoted (orElse (place sermon) [])]"

definition sermonsToCsv :: "Sermon list \<Rightarrow> string" where
  "sermonsToCsv ss = joinWith [newline] (joinWith '','' csvHeaders # map csvRow ss)"

text \<open>The surroundings of the examples: universal time, a clock that stands at 0, fixed
  identifiers.\<close>

definition env0 :: ImportEnv where
  "env0 = \<lparr>tzOffset = 0, clock = (\<lambda>i. 0), randomId = (\<lambda>i. ''r''), stampId = (\<lambda>i. ''s'')\<rparr>"

section \<open>The shipped sample catalog (App.tsx, sampleSermons)\<close>

text \<open>\<^verbatim>\<open>new Date('2024-01-15')\<close> is midnight UTC of that day: 19737 days after the epoch.\<close>

definition sampleSermons :: "Sermon list" where
  "sampleSermons =
    [\<lparr>sermon_id = ''1'', title = ''The Power of Faith'', date = 1705276800000,
      series = Some ''Faith Series'', seriesOrder = Some 1,
      tags = [''faith'', ''power'', ''christian living''],
      summary = Some ''An exploration of how faith transforms our daily lives and relationship with God.'',
      references = Some [''Hebrews 11:1'', ''Romans 1:17''],
      filePath = None, fileSize = None, lastModified = None, versions = None,
      preachingHistory = Some
        [\<lparr>instance_id = ''1a'', instance_date = 1705276800000, location = ''Main Sanctuary'',
          instance_audience = None, instance_notes = None\<rparr>,
         \<lparr>instance_id = ''1b'', instance_date = 1710028800000, location = ''Youth Service'',
          instance_audience = None, instance_notes = None\<rparr>],
      image = Some [], sermon_type = Some ''Sunday Service'', place = Some ''Main Sanctuary''\<rparr>,
     \<lparr>sermon_id = ''2'', title = ''Walking in Love'', date = 1706745600000,
      series = Some ''Love Series'', seriesOrder = Some 1,
      tags = [''love'', ''relationships'', ''community''],
      summary = Some ''Understanding the biblical concept of love and how to practice it in our communities.'',
      references = Some [''1 Corinthians 13'', ''John 13:34-35''],
      filePath = None, fileSize = None, lastModified = None, versions = None,
      preachingHistory = Some
        [\<lparr>instance_id = ''2a'', instance_date = 1706745600000, location = ''Main Sanctuary'',
          instance_audience = None, instance_notes = None\<rparr>],
      image = Some [], sermon_type = Some ''Bible Study'', place = Some ''Fellowship Hall''\<rparr>,
     \<lparr>sermon_id = ''3'', title = ''Hope in Difficult Times'', date = 1707955200000,
      series = Some ''Faith Series'', seriesOrder = Some 2,
      tags = [''hope'', ''perseverance'', ''trust''],
      summary = Some ''Finding hope and strength in God during life's challenges.'',
      references = Some [''Romans 8:28'', ''Jeremiah 29:11''],
      filePath = None, fileSize = None, lastModified = None, versions = None,
      preachingHistory = Some
        [\<lparr>instance_id = ''3a'', instance_date = 1707955200000, location = ''Main Sanctuary'',
          instance_audience = None, instance_notes = None\<rparr>],
      image = Some [], sermon_type = Some ''Sunday Service'', place = Some ''Main Sanctuary''\<rparr>]"

text \<open>A series record as \<^verbatim>\<open>handleSaveSermon\<close> synthesizes it for a title.\<close>

definition autoSeries :: "string \<Rightarrow> string \<Rightarrow> Date \<Rightarrow> string \<Rightarrow> Series" where
  "autoSeries sid t d sermonId =
     \<lparr>series_id = sid, series_title = t,
      description = Some (''Auto-created series for '' @ [CHR 0x22] @ t @ [CHR 0x22]),
      startDate = Some d, endDate = None, series_sermons = [sermonId], series_tags = []\<rparr>"

text \<open>The first two sample sermons together with the series records saving them
  creates.\<close>

definition twoCatalog :: Catalog where
  "twoCatalog =
     \<lparr>cat_sermons = take 2 sampleSermons,
      cat_series = [autoSeries ''s1'' ''Faith Series'' 1705276800000 ''1'',
                    autoSeries ''s2'' ''Love Series'' 1706745600000 ''2'']\<rparr>"

text \<open>The invariant of a sermon with a history: its date is the earliest date in it.\<close>

definition canonicalDate :: "Sermon \<Rightarrow> bool" where
  "canonicalDate s = (historyOf s \<noteq> [] \<and> date s = Min (instance_date ` set (historyOf s)))"

text \<open>The form as it stands when the first sample sermon is being edited.\<close>

definition sampleForm :: FormData where
  "sampleForm =
     \<lparr>fd_title = Some ''The Power of Faith'', fd_date = Some 1705276800000,
      fd_series = Some ''Faith Series'', fd_seriesOrder = Some 1,
      fd_summary = Some ''An exploration of how faith transforms our daily lives and relationship with God.'',
      fd_type = Some ''Sunday Service'', fd_place = Some ''Main Sanctuary'',
      fd_tags = Some [''faith'', ''power'', ''christian living''],
      fd_references = Some [''Hebrews 11:1'', ''Romans 1:17''],
      fd_image = Some [],
      fd_preachingHistory = preachingHistory (hd sampleSermons)\<rparr>"

text \<open>The form of a new sermon after one instance was added and its location field was
  cleared (which clears the form's place with it).\<close>

definition clearedForm :: FormData where
  "clearedForm =
     \<lparr>fd_title = Some ''Grace'', fd_date = Some 1705276800000,
      fd_series = Some [], fd_seriesOrder = None, fd_summary = Some [],
      fd_type = Some [], fd_place = Some [], fd_tags = Some [], fd_references = Some [],
      fd_image = Some [],
      fd_preachingHistory = Some
        [\<lparr>instance_id = ''1705276800000'', instance_date = 1705276800000, location = [],
          instance_audience = None, instance_notes = None\<rparr>]\<rparr>"

text \<open>A file of two rows with one title, the second row earlier and elsewhere.\<close>

definition twoPlacesCsv :: string where
  "twoPlacesCsv =
     ''Title,Date,Place'' @ [newline] @ ''Hope,05-01-2025,Rome'' @ [newline]
     @ ''Hope,01-12-2024,Oslo''"

text \<open>The first sample sermon without its history.\<close>

definition bareSermon :: Sermon where
  "bareSermon = (hd sampleSermons)\<lparr>preachingHistory := None\<rparr>"

text \<open>A file whose title cell holds escaped quotes: \<^verbatim>\<open>"Say ""Amen"""\<close>.\<close>

definition amenCsv :: string where
  "amenCsv =
     ''Title,Date'' @ [newline]
     @ [dquote] @ ''Say '' @ [dquote, dquote] @ ''Amen'' @ [dquote, dquote, dquote] @ '',''
     @ [dquote] @ ''01-01-2024'' @ [dquote]"

section \<open>The parts of one round of the import loop, named\<close>

text \<open>The values \<^verbatim>\<open>importRow\<close> binds for a line, as functions of the line, so that
  statements about a round can refer to them.\<close>

definition rowValues :: "string \<Rightarrow> string list" where
  "rowValues line = map stripQuotes (parseCSVLine line)"

definition rowBlank :: "string \<Rightarrow> bool" where
  "rowBlank line = list_all (\<lambda>v. v = []) (rowValues line)"

definition rowTitle :: "ColumnMap \<Rightarrow> string \<Rightarrow> string" where
  "rowTitle cm line = getValue (rowValues line) (col_title cm) ''Untitled''"

definition rowDate :: "ImportEnv \<Rightarrow> ColumnMap \<Rightarrow> nat \<Rightarrow> string \<Rightarrow> Date" where
  "rowDate env cm i line =
     fst (parseDate (tzOffset env) (clock env i) (getValue (rowValues line) (col_date cm) []))"

definition rowInstance :: "ImportEnv \<Rightarrow> ColumnMap \<Rightarrow> nat \<Rightarrow> string \<Rightarrow> string \<Rightarrow> PreachingInstance" where
  "rowInstance env cm i line ident =
     \<lparr>instance_id = ident, instance_date = rowDate env cm i line,
      location = getValue (rowValues line) (col_place cm) ''Unknown Location'',
      instance_audience = None, instance_notes = None\<rparr>"

definition sameTitle :: "string \<Rightarrow> Sermon \<Rightarrow> bool" where
  "sameTitle t = (\<lambda>s. toLowerCase (title s) = toLowerCase t)"

definition rowSermon :: "ImportEnv \<Rightarrow> ColumnMap \<Rightarrow> nat \<Rightarrow> string \<Rightarrow> Sermon" where
  "rowSermon env cm i line =
     \<lparr>sermon_id = randomId env i,
      title = rowTitle cm line,
      date = rowDate env cm i line,
      series = (let v = getValue (rowValues line) (col_series cm) [] in if v = [] then None else Some v),
      seriesOrder = None,
      tags = splitList (getValue (rowValues line) (col_tags cm) []),
      summary = Some (getValue (rowValues line) (col_summary cm) []),
      references = Some (splitList (getValue (rowValues line) (col_references cm) [])),
      filePath = None, fileSize = None, lastModified = None, versions = None,
      preachingHistory = Some [rowInstance env cm i line (stampId env i)],
      image = None,
      sermon_type = Some (getValue (rowValues line) (col_type cm) []),
      place = Some (getValue (rowValues line) (col_place cm) ''Unknown Location'')\<rparr>"

text \<open>The number of preaching instances in a list of sermons.\<close>

definition instanceCount :: "Sermon list \<Rightarrow> nat" where
  "instanceCount ss = (\<Sum>s\<leftarrow>ss. length (historyOf s))"

section \<open>The date grammar, stated on its own\<close>

text \<open>The length of month \<open>m\<close> (1 to 12) of year \<open>y\<close>; a candidate (day, month, year)
  is acceptable when its parts are in range and the day exists in the month; the first
  acceptable candidate among the three formats, in their order.\<close>

definition daysInMonth :: "int \<Rightarrow> int \<Rightarrow> int" where
  "daysInMonth y m =
     (if m = 2 then 28 + InLeapYear y
      else if m = 4 \<or> m = 6 \<or> m = 9 \<or> m = 11 then 30 else 31)"

definition acceptable :: "(int \<times> int \<times> int) option \<Rightarrow> bool" where
  "acceptable c =
     (case c of
        None \<Rightarrow> False
      | Some (d, m, y) \<Rightarrow>
          1 \<le> d \<and> d \<le> 31 \<and> 1 \<le> m \<and> m \<le> 12 \<and> 1900 \<le> y \<and> y \<le> 2100
          \<and> d \<le> daysInMonth y m)"

definition firstAcceptable :: "string \<Rightarrow> (int \<times> int \<times> int) option" where
  "firstAcceptable t =
     (case find acceptable [matchDMY CHR ''-'' t, matchDMY CHR ''/'' t, matchISO t] of
        None \<Rightarrow> None
      | Some c \<Rightarrow> c)"

text \<open>The texts of a date, written from its three groups of digits: day, month and year
  joined by dashes or by slashes, or year, month and day joined by dashes.\<close>

fun dateText :: "DateFormat \<Rightarrow> string \<Rightarrow> string \<Rightarrow> string \<Rightarrow> string" where
  "dateText DashDMY dayStr monthStr yearStr = dayStr @ ''-'' @ monthStr @ ''-'' @ yearStr"
| "dateText SlashDMY dayStr monthStr yearStr = dayStr @ ''/'' @ monthStr @ ''/'' @ yearStr"
| "dateText IsoYMD dayStr monthStr yearStr = yearStr @ ''-'' @ monthStr @ ''-'' @ dayStr"

text \<open>A group is made of decimal digits only; the day and the month have one or two of
  them, the year has four.\<close>

definition digitsOnly :: "string \<Rightarrow> bool" where
  "digitsOnly g = (set g \<subseteq> set ''0123456789'')"

definition dateGroups :: "string \<Rightarrow> string \<Rightarrow> string \<Rightarrow> bool" where
  "dateGroups dayStr monthStr yearStr =
     (digitsOnly dayStr \<and> length dayStr \<in> {1, 2} \<and> digitsOnly monthStr \<and> length monthStr \<in> {1, 2}
      \<and> digitsOnly yearStr \<and> length yearStr = 4)"

text \<open>What the console gets between the attempt and the final error when the candidate
  of a format is discarded: only the first format says why.\<close>

definition rejection :: "DateFormat \<Rightarrow> int \<Rightarrow> int \<Rightarrow> int \<Rightarrow> LogEntry list" where
  "rejection f d m y =
     (if f = DashDMY then [if inRange d m y then WarnInvalidComponents else WarnOutOfRange]
      else [])"

text \<open>A file whose first data row has a day that does not exist.\<close>

definition badDateCsv :: string where
  "badDateCsv =
     ''Title,Date'' @ [newline] @ ''Advent,30-02-2025'' @ [newline] @ ''Epiphany,01-01-2025''"

text \<open>The two-row file of the merge scenario, its column map and its two data rows.\<close>

definition hopeCsv :: string where
  "hopeCsv =
     ''Title,Date,Summary'' @ [newline]
     @ [dquote] @ ''Hope'' @ [dquote] @ '','' @ [dquote] @ ''05-01-2025'' @ [dquote] @ '',''
     @ [dquote] @ ''x'' @ [dquote] @ [newline]
     @ [dquote] @ ''Hope'' @ [dquote] @ '','' @ [dquote] @ ''01-12-2024'' @ [dquote] @ '',''
     @ [dquote] @ ''y'' @ [dquote]"

definition hopeColumns :: ColumnMap where
  "hopeColumns = columnMap (headersOf ''Title,Date,Summary'')"

definition hopeRow1 :: string where
  "hopeRow1 = [dquote] @ ''Hope'' @ [dquote] @ '','' @ [dquote] @ ''05-01-2025'' @ [dquote] @ '',''
     @ [dquote] @ ''x'' @ [dquote]"

definition hopeRow2 :: string where
  "hopeRow2 = [dquote] @ ''Hope'' @ [dquote] @ '','' @ [dquote] @ ''01-12-2024'' @ [dquote] @ '',''
     @ [dquote] @ ''y'' @ [dquote]"



section \<open>The sermons an export can carry\<close>

text \<open>The calendar day of a time value as the export writes it.\<close>

definition isoDay :: "Date \<Rightarrow> string" where
  "isoDay t =
     (let (y, m, d) = civil (Day t)
      in padDigits 4 y @ ''-'' @ padDigits 2 (m + 1) @ ''-'' @ padDigits 2 d)"

text \<open>What a sermon must look like for the export to be read back: a field is plain
  when it holds no double quote and no line feed, tidy when it is plain and has no
  white space at its ends; a tag or reference is a tidy, non-empty string without a
  semicolon; the date lies in the years 1900 to 2100 of universal time.\<close>

definition plain :: "string \<Rightarrow> bool" where
  "plain f = (dquote \<notin> set f \<and> newline \<notin> set f)"

definition tidy :: "string \<Rightarrow> bool" where
  "tidy f = (plain f \<and> trim f = f)"

definition listItem :: "string \<Rightarrow> bool" where
  "listItem t = (tidy t \<and> t \<noteq> [] \<and> CHR '';'' \<notin> set t)"

text \<open>The references of a sermon, none when the field is absent.\<close>

definition refsOf :: "Sermon \<Rightarrow> string list" where
  "refsOf s = (case references s of None \<Rightarrow> [] | Some r \<Rightarrow> r)"

definition exportable :: "Sermon \<Rightarrow> bool" where
  "exportable s =
     (tidy (title s) \<and> title s \<noteq> []
      \<and> tidy (orElse (series s) [])
      \<and> plain (orElse (summary s) [])
      \<and> list_all listItem (tags s)
      \<and> list_all listItem (refsOf s)
      \<and> tidy (orElse (sermon_type s) [])
      \<and> tidy (orElse (place s) [])
      \<and> 1900 \<le> YearFromDay (Day (date s)) \<and> YearFromDay (Day (date s)) \<le> 2100)"

text \<open>The eight cells of a sermon's row.\<close>

definition exportFields :: "Sermon \<Rightarrow> string list" where
  "exportFields s =
     [title s, isoDay (date s), orElse (series s) [], orElse (summary s) [],
      joinWith '';'' (tags s), joinWith '';'' (refsOf s),
      orElse (sermon_type s) [], orElse (place s) []]"

text \<open>The column map of the header row the export writes.\<close>

definition exportColumns :: ColumnMap where
  "exportColumns = columnMap (headersOf (joinWith '','' csvHeaders))"

text \<open>The sermon that line \<open>i\<close> of an export gives back for the sermon \<open>s\<close> it was
  written from.\<close>

definition reimported :: "ImportEnv \<Rightarrow> nat \<Rightarrow> Sermon \<Rightarrow> Sermon" where
  "reimported env i s =
     \<lparr>sermon_id = randomId env i,
      title = title s,
      date = Day (date s) * msPerDay - tzOffset env,
      series = (if truthy (series s) then series s else None),
      seriesOrder = None,
      tags = tags s,
      summary = Some (trim (orElse (summary s) [])),
      references = Some (refsOf s),
      filePath = None, fileSize = None, lastModified = None, versions = None,
      preachingHistory = Some
        [\<lparr>instance_id = stampId env i,
          instance_date = Day (date s) * msPerDay - tzOffset env,
          location = orElse (place s) ''Unknown Location'',
          instance_audience = None, instance_notes = None\<rparr>],
      image = None,
      sermon_type = Some (orElse (sermon_type s) []),
      place = Some (orElse (place s) ''Unknown Location'')\<rparr>"

text \<open>The first sample sermon and a second sermon of the same title, preached later
  and elsewhere.\<close>

definition twinSermons :: "Sermon list" where
  "twinSermons =
     [hd sampleSermons,
      (hd sampleSermons)\<lparr>sermon_id := ''4'', date := 1710028800000, place := Some ''Youth Service''\<rparr>]"

section \<open>Properties of the calendar\<close>

lemma yearDown_le: "DayFromYear (yearDown y n) \<le> n"
proof (induction y n rule: yearDown.induct)
  case (1 y n)
  show ?case
  proof (cases "n < DayFromYear y")
    case True
    with 1 show ?thesis by (subst yearDown.simps) simp
  next
    case False
    then show ?thesis by (subst yearDown.simps) simp
  qed
qed

lemma yearUp_bounds:
  "DayFromYear y \<le> n \<Longrightarrow> DayFromYear (yearUp y n) \<le> n \<and> n < DayFromYear (yearUp y n + 1)"
proof (induction y n rule: yearUp.induct)
  case (1 y n)
  show ?case
  proof (cases "DayFromYear (y + 1) \<le> n")
    case True
    with 1 show ?thesis by (subst (1 2) yearUp.simps) simp
  next
    case False
    with 1 show ?thesis by (subst (1 2) yearUp.simps) simp
  qed
qed

lemma YearFromDay_bounds:
  "DayFromYear (YearFromDay n) \<le> n \<and> n < DayFromYear (YearFromDay n + 1)"
  unfolding YearFromDay_def by (rule yearUp_bounds) (rule yearDown_le)

lemma civil_fields:
  assumes "civil n = (y, m, d)"
  shows "MakeDay y m d = n \<and> 0 \<le> m \<and> m \<le> 11 \<and> 1 \<le> d \<and> d \<le> 31 \<and> y = YearFromDay n"
proof -
  define dy where "dy = n - DayFromYear (YearFromDay n)"
  define leap where "leap = InLeapYear (YearFromDay n)"
  have y: "y = YearFromDay n" and m: "m = MonthFromDayInYear leap dy"
    and d: "d = dy - monthStart leap m + 1"
    using assms by (auto simp: civil_def Let_def dy_def leap_def)
  have lo: "0 \<le> dy" using YearFromDay_bounds [of n] by (simp add: dy_def)
  have "n < DayFromYear (YearFromDay n) + DaysInYear (YearFromDay n)"
    using YearFromDay_bounds [of n] DayFromYear_Suc [of "YearFromDay n"] by simp
  then have hi: "dy < 365 + leap" and l: "leap = 0 \<or> leap = 1"
    using DaysInYear_bounds [of "YearFromDay n"]
    by (auto simp: dy_def leap_def InLeapYear_def DaysInYear_def split: if_splits)
  have mr: "0 \<le> m \<and> m \<le> 11" unfolding m MonthFromDayInYear_def by simp
  have dr: "1 \<le> d \<and> d \<le> 31 \<and> monthStart leap m + d - 1 = dy"
    using lo hi l unfolding d m MonthFromDayInYear_def monthStart_def by auto
  have "m div 12 = 0" "m mod 12 = m" using mr by simp_all
  then have "MakeDay y m d = DayFromYear y + monthStart (InLeapYear y) m + d - 1"
    by (simp add: MakeDay_def)
  also have "\<dots> = n" using dr by (simp add: y dy_def leap_def)
  finally show ?thesis using mr dr y by simp
qed

lemma DayFromYear_add: "DayFromYear a \<le> DayFromYear (a + int k)"
proof (induction k)
  case 0
  then show ?case by simp
next
  case (Suc k)
  have "DayFromYear (a + int (Suc k)) = DayFromYear (a + int k) + DaysInYear (a + int k)"
    using DayFromYear_Suc [of "a + int k"] by (simp add: algebra_simps)
  with Suc DaysInYear_bounds [of "a + int k"] show ?case by linarith
qed

lemma DayFromYear_mono: "a \<le> b \<Longrightarrow> DayFromYear a \<le> DayFromYear b"
  using DayFromYear_add [of a "nat (b - a)"] by simp

lemma YearFromDay_unique:
  assumes "DayFromYear y \<le> n" "n < DayFromYear (y + 1)"
  shows "YearFromDay n = y"
proof (rule ccontr)
  assume ne: "YearFromDay n \<noteq> y"
  have b: "DayFromYear (YearFromDay n) \<le> n" "n < DayFromYear (YearFromDay n + 1)"
    using YearFromDay_bounds [of n] by simp_all
  show False
  proof (cases "YearFromDay n < y")
    case True
    then have "DayFromYear (YearFromDay n + 1) \<le> DayFromYear y"
      by (intro DayFromYear_mono) simp
    with b assms show False by linarith
  next
    case False
    with ne have "DayFromYear (y + 1) \<le> DayFromYear (YearFromDay n)"
      by (intro DayFromYear_mono) simp
    with b assms show False by linarith
  qed
qed

lemma leap_cases: "InLeapYear y = 0 \<or> InLeapYear y = 1"
  by (simp add: InLeapYear_def)

lemma DaysInYear_leap: "DaysInYear y = 365 + InLeapYear y"
  by (simp add: InLeapYear_def DaysInYear_def)

lemma month_cases:
  "1 \<le> m \<Longrightarrow> m \<le> 12 \<Longrightarrow>
    m = 1 \<or> m = 2 \<or> m = 3 \<or> m = 4 \<or> m = 5 \<or> m = 6 \<or> m = 7 \<or> m = 8 \<or> m = 9 \<or> m = 10
    \<or> m = 11 \<or> m = (12::int)"
  by arith

lemma MakeDay_month:
  "1 \<le> m \<Longrightarrow> m \<le> 12 \<Longrightarrow>
     MakeDay y (m - 1) d = DayFromYear y + monthStart (InLeapYear y) (m - 1) + d - 1"
  by (simp add: MakeDay_def Let_def)

lemma civil_in_year:
  assumes "0 \<le> dy" "dy < 365 + InLeapYear y"
  shows "civil (DayFromYear y + dy) =
     (y, MonthFromDayInYear (InLeapYear y) dy,
      dy - monthStart (InLeapYear y) (MonthFromDayInYear (InLeapYear y) dy) + 1)"
proof -
  have "YearFromDay (DayFromYear y + dy) = y"
    using assms DayFromYear_Suc [of y] DaysInYear_leap [of y]
    by (intro YearFromDay_unique) simp_all
  then show ?thesis by (simp add: civil_def Let_def)
qed

lemma civil_MakeDay:
  assumes "1 \<le> m" "m \<le> 12" "1 \<le> d" "d \<le> 31"
  shows "civil (MakeDay y (m - 1) d) = (y, m - 1, d) \<longleftrightarrow> d \<le> daysInMonth y m"
proof -
  define L where "L = InLeapYear y"
  define dy where "dy = monthStart L (m - 1) + d - 1"
  have l: "L = 0 \<or> L = 1" unfolding L_def by (rule leap_cases)
  have r: "0 \<le> dy \<and> (d \<le> daysInMonth y m \<or> m \<noteq> 12 \<longrightarrow> dy < 365 + L)"
    using month_cases [OF assms(1,2)] l assms(3,4)
    unfolding dy_def monthStart_def daysInMonth_def L_def [symmetric] by (elim disjE; simp)
  have e: "MakeDay y (m - 1) d = DayFromYear y + dy"
    using assms by (simp add: MakeDay_month dy_def L_def)
  show ?thesis
  proof (cases "d \<le> daysInMonth y m")
    case True
    then have c: "civil (DayFromYear y + dy) =
       (y, MonthFromDayInYear L dy, dy - monthStart L (MonthFromDayInYear L dy) + 1)"
      using r unfolding L_def by (intro civil_in_year) simp_all
    have "MonthFromDayInYear L dy = m - 1"
      using month_cases [OF assms(1,2)] l True assms(3,4)
      unfolding dy_def monthStart_def daysInMonth_def MonthFromDayInYear_def L_def [symmetric]
      by (elim disjE; simp)
    then show ?thesis using True c e by (simp add: dy_def)
  next
    case False
    then have m12: "m \<noteq> 12" using assms by (auto simp: daysInMonth_def)
    then have c: "civil (DayFromYear y + dy) =
       (y, MonthFromDayInYear L dy, dy - monthStart L (MonthFromDayInYear L dy) + 1)"
      using r unfolding L_def by (intro civil_in_year) simp_all
    have "MonthFromDayInYear L dy \<noteq> m - 1"
      using month_cases [OF assms(1,2)] l False assms(3,4)
      unfolding dy_def monthStart_def daysInMonth_def MonthFromDayInYear_def L_def [symmetric]
      by (elim disjE; simp)
    then show ?thesis using False c e by simp
  qed
qed

section \<open>Canonical date and place of a sermon\<close>

lemma Max_insert2: "finite S \<Longrightarrow> Max (insert x (insert y S)) = Max (insert (max x y) S)"
  for x :: "'a::linorder"
  by (cases "S = {}") (simp_all add: max.assoc)

lemma Min_insert2: "finite S \<Longrightarrow> Min (insert x (insert y S)) = Min (insert (min x y) S)"
  for x :: "'a::linorder"
  by (cases "S = {}") (simp_all add: min.assoc)

lemma latestInstance_mem: "latestInstance h h0 \<in> insert h0 (set h)"
  unfolding latestInstance_def by (induction h arbitrary: h0) auto

lemma latestInstance_date:
  "instance_date (latestInstance h h0) = Max (insert (instance_date h0) (instance_date ` set h))"
  unfolding latestInstance_def
proof (induction h arbitrary: h0)
  case Nil
  then show ?case by simp
next
  case (Cons a h)
  show ?case
    by (simp add: Cons.IH Max_insert2 max_def del: Max_insert)
qed

lemma earliestDate_Min:
  "earliestDate h d0 = Min (insert d0 (instance_date ` set h))"
  unfolding earliestDate_def
proof (induction h arbitrary: d0)
  case Nil
  then show ?case by simp
next
  case (Cons a h)
  show ?case
    by (simp add: Cons.IH Min_insert2 min_def del: Min_insert)
qed

lemma earliestInstance_date:
  "instance_date (earliestInstance h0 rest) = Min (insert (instance_date h0) (instance_date ` set rest))"
  unfolding earliestInstance_def
proof (induction rest arbitrary: h0)
  case Nil
  then show ?case by simp
next
  case (Cons a h)
  show ?case
    by (simp add: Cons.IH Min_insert2 min_def del: Min_insert)
qed

lemma find_Min_date:
  assumes "h \<noteq> []"
  shows "\<exists>e. find (\<lambda>i. instance_date i = Min (instance_date ` set h)) h = Some e
          \<and> e \<in> set h \<and> instance_date e = Min (instance_date ` set h)"
proof -
  have "Min (instance_date ` set h) \<in> instance_date ` set h"
    using assms by (intro Min_in) simp_all
  then obtain x where "x \<in> set h" "instance_date x = Min (instance_date ` set h)" by auto
  then have "find (\<lambda>i. instance_date i = Min (instance_date ` set h)) h \<noteq> None"
    by (auto simp: find_None_iff)
  then obtain e where e: "find (\<lambda>i. instance_date i = Min (instance_date ` set h)) h = Some e"
    by auto
  then show ?thesis by (auto simp: find_Some_iff)
qed

lemma handleSave_history:
  "preachingHistory (handleSave fd sermon now s1 s2) = Some (historyOf (handleSave fd sermon now s1 s2))"
  by (simp add: handleSave_def historyOf_def Let_def)

lemma handleSave_date:
  assumes "historyOf (handleSave fd sermon now s1 s2) \<noteq> []"
  shows "date (handleSave fd sermon now s1 s2)
         = Min (instance_date ` set (historyOf (handleSave fd sermon now s1 s2)))"
proof -
  obtain h0 rest where h: "historyOf (handleSave fd sermon now s1 s2) = h0 # rest"
    using assms by (cases "historyOf (handleSave fd sermon now s1 s2)") auto
  then show ?thesis
    by (simp add: handleSave_def historyOf_def Let_def earliestDate_Min split: if_splits del: Min_insert)
qed

lemma handleSave_place:
  assumes "historyOf (handleSave fd sermon now s1 s2) \<noteq> []"
    and "find (\<lambda>i. instance_date i = Min (instance_date ` set (historyOf (handleSave fd sermon now s1 s2))))
           (historyOf (handleSave fd sermon now s1 s2)) = Some e"
  shows "place (handleSave fd sermon now s1 s2)
         = Some (if location e \<noteq> [] then location e else orElse (fd_place fd) ''Unknown Location'')"
proof -
  have d: "date (handleSave fd sermon now s1 s2)
         = Min (instance_date ` set (historyOf (handleSave fd sermon now s1 s2)))"
    using assms(1) by (rule handleSave_date)
  have p: "place (handleSave fd sermon now s1 s2) =
    Some (orElse (orElseOpt (map_option location
       (find (\<lambda>i. instance_date i = date (handleSave fd sermon now s1 s2))
          (historyOf (handleSave fd sermon now s1 s2)))) (fd_place fd)) ''Unknown Location'')"
    by (simp add: handleSave_def historyOf_def Let_def)
  show ?thesis
    unfolding p d assms(2)
    by (simp add: orElse_def orElseOpt_def truthy_def split: option.splits)
qed

lemma mergeInstance_history:
  "historyOf (mergeInstance inst s) = historyOf s @ [inst]"
  by (simp add: mergeInstance_def historyOf_def Let_def)

lemma mergeInstance_date:
  "date (mergeInstance inst s) = Min (instance_date ` set (historyOf (mergeInstance inst s)))"
proof (cases "historyOf s")
  case Nil
  then show ?thesis by (simp add: mergeInstance_def Let_def historyOf_def earliestInstance_def)
next
  case (Cons h0 rest)
  have "historyOf (mergeInstance inst s) = h0 # rest @ [inst]"
    using Cons by (simp add: mergeInstance_history)
  moreover have "date (mergeInstance inst s) = instance_date (earliestInstance h0 (rest @ [inst]))"
    using Cons by (simp add: mergeInstance_def Let_def)
  ultimately show ?thesis
    by (simp add: earliestInstance_date del: Min_insert)
qed

lemma canonicalDate_merge: "canonicalDate (mergeInstance inst s)"
  unfolding canonicalDate_def using mergeInstance_date [of inst s]
  by (simp add: mergeInstance_history)

lemma set_updateFirst: "set (updateFirst p f xs) \<subseteq> set xs \<union> f ` set xs"
  by (induction xs) auto

lemma importRow_canonical:
  assumes "list_all canonicalDate ss"
  shows "list_all canonicalDate (importRow env cm ss row)"
proof -
  have u: "list_all canonicalDate (updateFirst p (mergeInstance inst) ss)" for p inst
    using assms set_updateFirst [of p "mergeInstance inst" ss]
    by (auto simp: list_all_iff canonicalDate_merge)
  show ?thesis
    using assms u
    by (auto simp: importRow_def Let_def canonicalDate_def historyOf_def split: option.splits)
qed

lemma foldl_importRow_canonical:
  "list_all canonicalDate ss \<Longrightarrow> list_all canonicalDate (foldl (importRow env cm) ss rows)"
  by (induction rows arbitrary: ss) (simp_all add: importRow_canonical)

lemma parseCSV_canonical: "list_all canonicalDate (parseCSV env csv)"
  by (simp add: parseCSV_def Let_def foldl_importRow_canonical)

text \<open>C1, as the code has it: a sermon saved from the edit form with a non-empty history
  has the earliest date of its history as its date, and as its place the location of
  the first instance of that date when that location is not empty, else the form's
  place, else ``Unknown Location''; merging a row of a known title into a sermon
  appends the instance and sets the sermon's date to the earliest date of the history,
  so every sermon an import returns has a history and its earliest date as its date.\<close>

theorem canonical_date_place:
  "(historyOf (handleSave fd sermon now s1 s2) \<noteq> [] \<longrightarrow>
      date (handleSave fd sermon now s1 s2)
        = Min (instance_date ` set (historyOf (handleSave fd sermon now s1 s2)))
      \<and> (\<exists>e \<in> set (historyOf (handleSave fd sermon now s1 s2)).
            find (\<lambda>i. instance_date i
                        = Min (instance_date ` set (historyOf (handleSave fd sermon now s1 s2))))
              (historyOf (handleSave fd sermon now s1 s2)) = Some e
            \<and> place (handleSave fd sermon now s1 s2)
                = Some (if location e \<noteq> [] then location e
                        else orElse (fd_place fd) ''Unknown Location'')))
   \<and> historyOf (mergeInstance inst existing) = historyOf existing @ [inst]
   \<and> date (mergeInstance inst existing)
       = Min (instance_date ` set (historyOf (mergeInstance inst existing)))
   \<and> list_all canonicalDate (parseCSV env csv)"
proof -
  have "date (handleSave fd sermon now s1 s2)
        = Min (instance_date ` set (historyOf (handleSave fd sermon now s1 s2)))
      \<and> (\<exists>e \<in> set (historyOf (handleSave fd sermon now s1 s2)).
            find (\<lambda>i. instance_date i
                        = Min (instance_date ` set (historyOf (handleSave fd sermon now s1 s2))))
              (historyOf (handleSave fd sermon now s1 s2)) = Some e
            \<and> place (handleSave fd sermon now s1 s2)
                = Some (if location e \<noteq> [] then location e
                        else orElse (fd_place fd) ''Unknown Location''))"
    if ne: "historyOf (handleSave fd sermon now s1 s2) \<noteq> []"
  proof -
    from find_Min_date [OF ne] obtain e where
      e: "find (\<lambda>i. instance_date i
                = Min (instance_date ` set (historyOf (handleSave fd sermon now s1 s2))))
            (historyOf (handleSave fd sermon now s1 s2)) = Some e"
         "e \<in> set (historyOf (handleSave fd sermon now s1 s2))"
      by blast
    from handleSave_date [OF ne] handleSave_place [OF ne e(1)] e show ?thesis
      by blast
  qed
  then show ?thesis
    using mergeInstance_history [of inst existing] mergeInstance_date [of inst existing]
      parseCSV_canonical [of env csv]
    by blast
qed

text \<open>Saving the first sample sermon from its form: the date is that of the first
  instance, 15 January 2024, and the place is its location.\<close>

theorem canonical_date_place_witness:
  "historyOf (handleSave sampleForm (Some (hd sampleSermons)) 0 [] []) \<noteq> []
   \<and> date (handleSave sampleForm (Some (hd sampleSermons)) 0 [] []) = 1705276800000
   \<and> place (handleSave sampleForm (Some (hd sampleSermons)) 0 [] []) = Some ''Main Sanctuary''
   \<and> Min (instance_date ` set (historyOf (handleSave sampleForm (Some (hd sampleSermons)) 0 [] [])))
       = 1705276800000"
proof -
  have h: "historyOf (handleSave sampleForm (Some (hd sampleSermons)) 0 [] []) \<noteq> []"
    by code_simp
  have d: "date (handleSave sampleForm (Some (hd sampleSermons)) 0 [] []) = 1705276800000"
    by code_simp
  have p: "place (handleSave sampleForm (Some (hd sampleSermons)) 0 [] []) = Some ''Main Sanctuary''"
    by code_simp
  from canonical_date_place [of sampleForm "Some (hd sampleSermons)" 0 "[]" "[]"] h
  have "date (handleSave sampleForm (Some (hd sampleSermons)) 0 [] [])
        = Min (instance_date ` set (historyOf (handleSave sampleForm (Some (hd sampleSermons)) 0 [] [])))"
    by blast
  with h d p show ?thesis by simp
qed

text \<open>C1 as stated fails when the earliest instance has an empty location: the saved
  sermon's place is ``Unknown Location'', not that location.\<close>

theorem canonical_place_counterexample:
  "historyOf (handleSave clearedForm None 0 [] []) \<noteq> []
   \<and> \<not> (\<exists>e \<in> set (historyOf (handleSave clearedForm None 0 [] [])).
          instance_date e = Min (instance_date ` set (historyOf (handleSave clearedForm None 0 [] [])))
          \<and> place (handleSave clearedForm None 0 [] []) = Some (location e))"
  by code_simp

text \<open>On the import path the place is not recomputed at all: after merging an earlier
  row from elsewhere the sermon keeps the place of its first row.\<close>

lemma import_merge_keeps_place:
  "map (\<lambda>s. (title s, place s, map location (historyOf s), map instance_date (historyOf s)))
     (parseCSV env0 twoPlacesCsv)
   = [(''Hope'', Some ''Rome'', [''Rome'', ''Oslo''], [1736035200000, 1733011200000])]"
  by code_simp

section \<open>Properties of the view projector\<close>

lemma length_detailRows: "length (detailRows s) = max 1 (length (historyOf s))"
  by (cases "historyOf s") (auto simp: detailRows_def)

lemma instanceRow_fields:
  "date (instanceRow s inst) = instance_date inst \<and> place (instanceRow s inst) = Some (location inst)
   \<and> preachingInstance (instanceRow s inst) = Some inst \<and> originalDate (instanceRow s inst) = date s"
  by (simp add: instanceRow_def Sermon.defs ExpandedSermon.defs)

lemma plainRow_fields:
  "date (plainRow s) = date s \<and> place (plainRow s) = Some (orElse (place s) [])
   \<and> preachingInstance (plainRow s) = None \<and> originalDate (plainRow s) = date s"
  by (simp add: plainRow_def Sermon.defs ExpandedSermon.defs)

lemma collapsedRow_latest:
  assumes "historyOf s \<noteq> []"
  shows "date (collapsedRow s) = Max (instance_date ` set (historyOf s))
     \<and> (\<exists>inst \<in> set (historyOf s).
          instance_date inst = Max (instance_date ` set (historyOf s))
          \<and> place (collapsedRow s) = Some (location inst)
          \<and> preachingInstance (collapsedRow s) = Some inst)"
proof -
  obtain h0 rest where h: "historyOf s = h0 # rest"
    using assms by (cases "historyOf s") auto
  define l where "l = latestInstance (h0 # rest) h0"
  have m: "l \<in> set (historyOf s)"
    using latestInstance_mem [of "h0 # rest" h0] by (simp add: l_def h)
  have "insert (instance_date h0) (instance_date ` set (h0 # rest)) = instance_date ` set (h0 # rest)"
    by auto
  then have d: "instance_date l = Max (instance_date ` set (historyOf s))"
    using latestInstance_date [of "h0 # rest" h0] by (simp only: l_def h)
  have r: "date (collapsedRow s) = instance_date l \<and> place (collapsedRow s) = Some (location l)
     \<and> preachingInstance (collapsedRow s) = Some l"
    by (simp add: collapsedRow_def h l_def Let_def Sermon.defs ExpandedSermon.defs)
  from m d r show ?thesis by auto
qed

text \<open>C5: in the details view a sermon contributes one row per preaching instance, with
  the instance's date and location, or one row of its own fields when it has no
  history, that is max(1, |history|) rows; the rows of all sermons together are sorted
  by ascending date. In the other views every sermon gives exactly one row: that of its
  latest-dated instance when it has a history, its own fields otherwise.\<close>

theorem expandedSermons_projection:
  "length (detailRows s) = max 1 (length (historyOf s))
   \<and> detailRows s = (if historyOf s = [] then [plainRow s] else map (instanceRow s) (historyOf s))
   \<and> date (instanceRow s inst) = instance_date inst
   \<and> place (instanceRow s inst) = Some (location inst)
   \<and> preachingInstance (instanceRow s inst) = Some inst
   \<and> date (plainRow s) = date s
   \<and> place (plainRow s) = Some (orElse (place s) [])
   \<and> preachingInstance (plainRow s) = None
   \<and> mset (expandedSermons DetailsView ss) = mset (concat (map detailRows ss))
   \<and> length (expandedSermons DetailsView ss) = (\<Sum>x\<leftarrow>ss. max 1 (length (historyOf x)))
   \<and> sorted (map date (expandedSermons DetailsView ss))
   \<and> (mode \<noteq> DetailsView \<longrightarrow>
        expandedSermons mode ss = map collapsedRow ss
        \<and> length (expandedSermons mode ss) = length ss)
   \<and> (historyOf s = [] \<longrightarrow> collapsedRow s = plainRow s)
   \<and> (historyOf s \<noteq> [] \<longrightarrow>
        date (collapsedRow s) = Max (instance_date ` set (historyOf s))
        \<and> (\<exists>inst \<in> set (historyOf s).
              instance_date inst = Max (instance_date ` set (historyOf s))
              \<and> place (collapsedRow s) = Some (location inst)
              \<and> preachingInstance (collapsedRow s) = Some inst))"
proof -
  have a: "detailRows s = (if historyOf s = [] then [plainRow s] else map (instanceRow s) (historyOf s))"
    by (simp add: detailRows_def)
  have b: "mset (expandedSermons DetailsView ss) = mset (concat (map detailRows ss))"
    by (simp add: expandedSermons_def)
  have c: "length (expandedSermons DetailsView ss) = (\<Sum>x\<leftarrow>ss. max 1 (length (historyOf x)))"
    by (simp add: expandedSermons_def length_concat comp_def length_detailRows)
  have d: "sorted (map date (expandedSermons DetailsView ss))"
    by (simp add: expandedSermons_def)
  have e: "mode \<noteq> DetailsView \<longrightarrow>
        expandedSermons mode ss = map collapsedRow ss
        \<and> length (expandedSermons mode ss) = length ss"
    by (simp add: expandedSermons_def)
  have f: "historyOf s = [] \<longrightarrow> collapsedRow s = plainRow s"
    by (simp add: collapsedRow_def)
  from length_detailRows [of s] a instanceRow_fields [of s inst] plainRow_fields [of s]
    b c d e f collapsedRow_latest [of s]
  show ?thesis by blast
qed

text \<open>The sample catalog: four rows in the details view, in date order, three rows in
  the list view; the first sermon collapses to its instance of 10 March 2024.\<close>

theorem expandedSermons_projection_witness:
  "ListView \<noteq> DetailsView
   \<and> historyOf (hd sampleSermons) \<noteq> []
   \<and> historyOf bareSermon = []
   \<and> length (expandedSermons ListView sampleSermons) = 3
   \<and> date (collapsedRow (hd sampleSermons)) = 1710028800000
   \<and> collapsedRow bareSermon = plainRow bareSermon
   \<and> map date (expandedSermons DetailsView sampleSermons)
       = [1705276800000, 1706745600000, 1707955200000, 1710028800000]"
proof -
  have a: "ListView \<noteq> DetailsView" by simp
  have b: "historyOf (hd sampleSermons) \<noteq> []" by code_simp
  have c: "historyOf bareSermon = []" by code_simp
  from expandedSermons_projection [of "hd sampleSermons" "hd (historyOf (hd sampleSermons))" sampleSermons ListView] a b
  have 1: "length (expandedSermons ListView sampleSermons) = length sampleSermons"
    and 2: "date (collapsedRow (hd sampleSermons))
            = Max (instance_date ` set (historyOf (hd sampleSermons)))"
    by blast+
  from expandedSermons_projection [of bareSermon "hd (historyOf (hd sampleSermons))" sampleSermons ListView] c
  have 3: "collapsedRow bareSermon = plainRow bareSermon"
    by blast
  have 4: "Max (instance_date ` set (historyOf (hd sampleSermons))) = 1710028800000"
    by code_simp
  have 5: "length sampleSermons = 3" by code_simp
  have 6: "map date (expandedSermons DetailsView sampleSermons)
       = [1705276800000, 1706745600000, 1707955200000, 1710028800000]"
    by code_simp
  from a b c 1 2 3 4 5 6 show ?thesis by simp
qed

section \<open>Properties of the line splitter\<close>

lemma parseCSVLoop_step:
  "parseCSVLoop r cur q (c # rest) =
     (if c = dquote then
        (if q \<and> rest \<noteq> [] \<and> hd rest = dquote
         then parseCSVLoop r (cur @ [dquote]) q (tl rest)
         else parseCSVLoop r cur (\<not> q) rest)
      else if c = CHR '','' \<and> \<not> q then parseCSVLoop (r @ [trim cur]) [] q rest
      else parseCSVLoop r (cur @ [c]) q rest)"
  by (cases rest) simp_all

lemma parseCSVLoop_inside:
  assumes "dquote \<notin> set f" "rest = [] \<or> hd rest \<noteq> dquote"
  shows "parseCSVLoop r cur True (f @ dquote # rest) = parseCSVLoop r (cur @ f) False rest"
  using assms
proof (induction f arbitrary: cur)
  case Nil
  then show ?case by (auto simp: parseCSVLoop_step simp del: parseCSVLoop.simps(2,3))
next
  case (Cons c f)
  then show ?case by (auto simp: parseCSVLoop_step simp del: parseCSVLoop.simps(2,3))
qed

lemma parseCSVLoop_outside:
  assumes "dquote \<notin> set f" "CHR '','' \<notin> set f"
  shows "parseCSVLoop r cur False (f @ rest) = parseCSVLoop r (cur @ f) False rest"
  using assms
proof (induction f arbitrary: cur)
  case Nil
  then show ?case by simp
next
  case (Cons c f)
  then show ?case by (auto simp: parseCSVLoop_step simp del: parseCSVLoop.simps(2,3))
qed

lemma parseCSVLoop_quoted_fields:
  assumes "\<forall>f \<in> set fs. dquote \<notin> set f" "fs \<noteq> []"
  shows "parseCSVLoop r [] False (joinWith '','' (map quoted fs)) = r @ map trim fs"
  using assms
proof (induction fs arbitrary: r rule: induct_list012)
  case 1
  then show ?case by simp
next
  case (2 x)
  then have "parseCSVLoop r [] True (x @ dquote # []) = parseCSVLoop r ([] @ x) False []"
    by (intro parseCSVLoop_inside) simp_all
  then show ?case
    by (simp add: quoted_def parseCSVLoop_step del: parseCSVLoop.simps(2,3))
next
  case (3 x y ys)
  define J where "J = joinWith '','' (map quoted (y # ys))"
  have e: "joinWith '','' (map quoted (x # y # ys)) = dquote # (x @ dquote # CHR '','' # J)"
    unfolding J_def by (simp add: quoted_def)
  have "parseCSVLoop r [] False (dquote # (x @ dquote # CHR '','' # J))
      = parseCSVLoop r [] True (x @ dquote # CHR '','' # J)"
    by (simp add: parseCSVLoop_step del: parseCSVLoop.simps(2,3))
  also have "\<dots> = parseCSVLoop r ([] @ x) False (CHR '','' # J)"
    using 3 by (intro parseCSVLoop_inside) simp_all
  also have "\<dots> = parseCSVLoop (r @ [trim x]) [] False J"
    by (simp add: parseCSVLoop_step del: parseCSVLoop.simps(2,3))
  also have "\<dots> = (r @ [trim x]) @ map trim (y # ys)"
    unfolding J_def using 3 by (intro "3.IH"(2)) simp_all
  finally show ?case unfolding e by simp
qed

text \<open>C8: the splitter keeps a quoted field with its commas as one field and turns a
  doubled quote inside it into one quote character, as the claim says; but the import
  then removes every quote character from every field, so the imported title of
  \<^verbatim>\<open>"Say ""Amen"""\<close> is \<open>Say Amen\<close>, without the quotes the claim promises.\<close>

theorem import_drops_escaped_quotes:
  "parseCSVLine (hd (tl (splitOn newline amenCsv)))
     = [''Say '' @ [dquote] @ ''Amen'' @ [dquote], ''01-01-2024'']
   \<and> map title (parseCSV env0 amenCsv) = [''Say Amen'']"
  by code_simp

section \<open>Properties of the header detection\<close>








section \<open>Properties of the import loop\<close>

lemma importRow_cases:
  "importRow env cm ss (i, line) =
     (if rowBlank line then ss
      else case find (sameTitle (rowTitle cm line)) ss of
             Some existing \<Rightarrow>
               updateFirst (sameTitle (rowTitle cm line))
                 (mergeInstance (rowInstance env cm i line (randomId env i))) ss
           | None \<Rightarrow> ss @ [rowSermon env cm i line])"
  by (simp only: importRow_def Let_def fst_conv snd_conv rowBlank_def rowValues_def
      rowTitle_def rowDate_def rowInstance_def rowSermon_def sameTitle_def)

lemma updateFirst_split:
  "find p xs = Some x \<Longrightarrow>
     \<exists>pre post. xs = pre @ x # post \<and> (\<forall>y \<in> set pre. \<not> p y) \<and> p x
        \<and> updateFirst p f xs = pre @ f x # post"
proof (induction xs)
  case Nil
  then show ?case by simp
next
  case (Cons a xs)
  show ?case
  proof (cases "p a")
    case True
    with Cons.prems have "x = a" by simp
    with True show ?thesis by (intro exI [of _ "[]"] exI [of _ xs]) simp
  next
    case False
    with Cons.prems have "find p xs = Some x" by simp
    from Cons.IH [OF this] obtain pre post where
      "xs = pre @ x # post" "\<forall>y \<in> set pre. \<not> p y" "p x" "updateFirst p f xs = pre @ f x # post"
      by blast
    with False show ?thesis
      by (intro exI [of _ "a # pre"] exI [of _ post]) simp
  qed
qed

lemma mergeInstance_title: "title (mergeInstance inst s) = title s"
  by (simp add: mergeInstance_def Let_def)

lemma map_title_updateFirst:
  "map title (updateFirst p (mergeInstance inst) ss) = map title ss"
  by (induction ss) (simp_all add: mergeInstance_title)

lemma rowSermon_title: "title (rowSermon env cm i line) = rowTitle cm line"
  by (simp add: rowSermon_def)

lemma importRow_distinct:
  assumes "distinct (map (\<lambda>s. toLowerCase (title s)) ss)"
  shows "distinct (map (\<lambda>s. toLowerCase (title s)) (importRow env cm ss row))"
proof -
  obtain i line where row: "row = (i, line)" by (cases row)
  have m: "map (\<lambda>s. toLowerCase (title s)) (updateFirst p (mergeInstance inst) ss)
      = map (\<lambda>s. toLowerCase (title s)) ss" for p inst
    using map_title_updateFirst [of p inst ss]
    by (metis (no_types, lifting) map_map comp_apply map_eq_conv)
  show ?thesis
    using assms unfolding row importRow_cases
    by (auto simp: m find_None_iff sameTitle_def rowSermon_title split: option.splits)
qed

lemma foldl_importRow_distinct:
  "distinct (map (\<lambda>s. toLowerCase (title s)) ss) \<Longrightarrow>
   distinct (map (\<lambda>s. toLowerCase (title s)) (foldl (importRow env cm) ss rows))"
  by (induction rows arbitrary: ss) (simp_all add: importRow_distinct)

lemma parseCSV_distinct: "distinct (map (\<lambda>s. toLowerCase (title s)) (parseCSV env csv))"
  by (simp add: parseCSV_def Let_def foldl_importRow_distinct)

lemma importRow_count:
  "instanceCount (importRow env cm ss (i, line))
     = instanceCount ss + (if rowBlank line then 0 else 1)"
proof (cases "find (sameTitle (rowTitle cm line)) ss")
  case None
  then show ?thesis
    by (simp add: importRow_cases instanceCount_def rowSermon_def historyOf_def)
next
  case (Some x)
  from updateFirst_split [OF Some, of "mergeInstance (rowInstance env cm i line (randomId env i))"]
  obtain pre post where "ss = pre @ x # post"
    "updateFirst (sameTitle (rowTitle cm line))
       (mergeInstance (rowInstance env cm i line (randomId env i))) ss
     = pre @ mergeInstance (rowInstance env cm i line (randomId env i)) x # post"
    by blast
  with Some show ?thesis
    by (simp add: importRow_cases instanceCount_def mergeInstance_history)
qed

section \<open>Properties of the string primitives\<close>

lemma splitAcc_no_sep:
  "sep \<notin> set x \<Longrightarrow> splitAcc sep cur (x @ rest) = splitAcc sep (cur @ x) rest"
  by (induction x arbitrary: cur) auto

lemma splitOn_single: "sep \<notin> set x \<Longrightarrow> splitOn sep x = [x]"
  using splitAcc_no_sep [of sep x "[]" "[]"] by (simp add: splitOn_def)

lemma splitOn_head:
  "sep \<notin> set x \<Longrightarrow> splitOn sep (x @ sep # rest) = x # splitOn sep rest"
  using splitAcc_no_sep [of sep x "[]" "sep # rest"] by (simp add: splitOn_def)

lemma splitOn_join:
  assumes "xs \<noteq> []" "\<forall>x \<in> set xs. sep \<notin> set x"
  shows "splitOn sep (joinWith [sep] xs) = xs"
  using assms
proof (induction xs rule: induct_list012)
  case 1
  then show ?case by simp
next
  case (2 x)
  then show ?case by (simp add: splitOn_single)
next
  case (3 x y zs)
  then have "splitOn sep (joinWith [sep] (y # zs)) = y # zs" by simp
  with 3 show ?case by (simp add: splitOn_head)
qed

lemma trim_Nil: "trim [] = []"
  by (simp add: trim_def)

lemma trim_id:
  assumes "s \<noteq> []" "\<not> isWhitespace (hd s)" "\<not> isWhitespace (last s)"
  shows "trim s = s"
proof -
  have a: "dropWhile isWhitespace s = s" using assms by (simp add: dropWhile_eq_self_iff)
  have b: "dropWhile isWhitespace (rev s) = rev s"
    using assms by (simp add: dropWhile_eq_self_iff hd_rev)
  show ?thesis by (simp add: trim_def a b)
qed

lemma set_trim: "set (trim s) \<subseteq> set s"
proof
  fix c assume "c \<in> set (trim s)"
  then have "c \<in> set (dropWhile isWhitespace (rev (dropWhile isWhitespace s)))"
    by (simp add: trim_def)
  then have "c \<in> set (rev (dropWhile isWhitespace s))" by (rule set_dropWhileD)
  then have "c \<in> set (dropWhile isWhitespace s)" by simp
  then show "c \<in> set s" by (rule set_dropWhileD)
qed

lemma trim_edges:
  assumes "trim s = s" "s \<noteq> []"
  shows "\<not> isWhitespace (hd s) \<and> \<not> isWhitespace (last s)"
proof -
  define d where "d = dropWhile isWhitespace s"
  have "length (trim s) \<le> length d"
    using length_dropWhile_le [of isWhitespace "rev d"] by (simp add: trim_def d_def)
  moreover have "length (takeWhile isWhitespace s) + length d = length s"
    unfolding d_def by (metis takeWhile_dropWhile_id length_append)
  ultimately have "length (takeWhile isWhitespace s) = 0" unfolding assms(1) by linarith
  then have "takeWhile isWhitespace s = []" by simp
  then have ds: "d = s" unfolding d_def by (metis takeWhile_dropWhile_id append_Nil)
  then have 1: "\<not> isWhitespace (hd s)"
    using assms(2) unfolding d_def by (simp add: dropWhile_eq_self_iff)
  have "rev (dropWhile isWhitespace (rev s)) = s"
    using assms(1) ds unfolding trim_def d_def by simp
  then have "dropWhile isWhitespace (rev s) = rev s" by (metis rev_rev_ident)
  then have 2: "\<not> isWhitespace (last s)"
    using assms(2) by (simp add: dropWhile_eq_self_iff hd_rev)
  from 1 2 show ?thesis by simp
qed

lemma joinWith_Cons: "joinWith sep (x # xs) = x @ concat (map (\<lambda>y. sep @ y) xs)"
  by (induction xs arbitrary: x) simp_all

lemma digit_not_sep:
  "isDigit c \<Longrightarrow> c \<noteq> CHR ''-'' \<and> c \<noteq> CHR ''/'' \<and> c \<noteq> CHR ''T'' \<and> \<not> isWhitespace c
     \<and> c \<noteq> dquote \<and> c \<noteq> newline \<and> c \<noteq> CHR '',''"
  by (auto simp: isDigit_def isWhitespace_def)

lemma splitOn_three:
  "sep \<notin> set a \<Longrightarrow> sep \<notin> set b \<Longrightarrow> sep \<notin> set c \<Longrightarrow>
     splitOn sep (a @ sep # b @ sep # c) = [a, b, c]"
  by (simp add: splitOn_head splitOn_single)

lemma concat_sep: "xs \<noteq> [] \<Longrightarrow> concat (map (\<lambda>y. sep @ y) xs) = sep @ joinWith sep xs"
  by (cases xs) (simp_all add: joinWith_Cons)

lemma splitAcc_nonempty: "splitAcc sep cur t \<noteq> []"
  by (induction t arbitrary: cur) simp_all

lemma joinWith_splitAcc: "joinWith [sep] (splitAcc sep cur t) = cur @ t"
proof (induction t arbitrary: cur)
  case Nil
  then show ?case by simp
next
  case (Cons c cs)
  show ?case
  proof (cases "c = sep")
    case True
    have "joinWith [sep] (cur # splitAcc sep [] cs)
        = cur @ [sep] @ joinWith [sep] (splitAcc sep [] cs)"
      using splitAcc_nonempty [of sep "[]" cs] concat_sep [of "splitAcc sep [] cs" "[sep]"]
      by (simp add: joinWith_Cons)
    then show ?thesis using True Cons.IH [of "[]"] by simp
  next
    case False
    then show ?thesis using Cons.IH [of "cur @ [c]"] by simp
  qed
qed

lemma joinWith_splitOn: "joinWith [sep] (splitOn sep t) = t"
  by (simp add: splitOn_def joinWith_splitAcc)

lemma splitOn_three_conv:
  "splitOn sep t = [a, b, c] \<Longrightarrow> t = a @ sep # b @ sep # c"
  using joinWith_splitOn [of sep t] by simp

section \<open>Properties of the date parser\<close>

lemma Day_local: "Day (x * msPerDay - tz + tz) = x"
  by (simp add: Day_def msPerDay_def)

lemma roundTrips_iff:
  assumes "inRange d m y"
  shows "roundTrips tz d m y \<longleftrightarrow> d \<le> daysInMonth y m"
proof -
  have b: "1 \<le> m" "m \<le> 12" "1 \<le> d" "d \<le> 31" "1900 \<le> y"
    using assms by (simp_all add: inRange_def)
  have n: "newDate tz y (m - 1) d = MakeDay y (m - 1) d * msPerDay - tz"
    using b by (simp add: newDate_def)
  have "roundTrips tz d m y \<longleftrightarrow> civil (MakeDay y (m - 1) d) = (y, m - 1, d)"
    unfolding roundTrips_def Let_def getDate_def getMonth_def getFullYear_def n Day_local
    by (auto simp: prod_eq_iff)
  then show ?thesis using civil_MakeDay [OF b(1-4)] by simp
qed

lemma accept_iff:
  "acceptable (Some (d, m, y)) \<longleftrightarrow> inRange d m y \<and> roundTrips tz d m y"
  using roundTrips_iff [of d m y tz] by (auto simp: acceptable_def inRange_def)

lemma firstAcceptable_empty: "firstAcceptable [] = None"
  by code_simp

lemma parseDate_spec:
  "fst (parseDate tz now s) =
     (case firstAcceptable (trim s) of
        Some (d, m, y) \<Rightarrow> newDate tz y (m - 1) d
      | None \<Rightarrow> now)"
proof (cases "s = [] \<or> trim s = []")
  case True
  then have "trim s = []" by (auto simp: trim_def)
  with True show ?thesis by (simp add: parseDate_def firstAcceptable_empty)
next
  case False
  define t where "t = trim s"
  define a where "a = matchDMY CHR ''-'' t"
  define b where "b = matchDMY CHR ''/'' t"
  define c where "c = matchISO t"
  have p: "fst (parseDate tz now s) =
     (if acceptable a then (case a of Some (d, m, y) \<Rightarrow> newDate tz y (m - 1) d | None \<Rightarrow> now)
      else if acceptable b then (case b of Some (d, m, y) \<Rightarrow> newDate tz y (m - 1) d | None \<Rightarrow> now)
      else if acceptable c then (case c of Some (d, m, y) \<Rightarrow> newDate tz y (m - 1) d | None \<Rightarrow> now)
      else now)"
  proof -
    have x: "acceptable x = (case x of None \<Rightarrow> False
               | Some (d, m, y) \<Rightarrow> inRange d m y \<and> roundTrips tz d m y)" for x
    proof (cases x)
      case None
      then show ?thesis by (simp add: acceptable_def)
    next
      case (Some u)
      obtain d m y where "u = (d, m, y)" by (cases u)
      with Some show ?thesis using accept_iff [of d m y tz] by simp
    qed
    show ?thesis
      using False unfolding x parseDate_def Let_def t_def [symmetric] a_def [symmetric]
        b_def [symmetric] c_def [symmetric]
      by (cases a; cases b; cases c) (auto split: prod.splits)
  qed
  have f: "firstAcceptable t =
     (if acceptable a then a else if acceptable b then b else if acceptable c then c else None)"
    by (simp add: firstAcceptable_def a_def b_def c_def)
  have n: "\<not> acceptable None" by (simp add: acceptable_def)
  show ?thesis
    unfolding p t_def [symmetric] f using n
    by (cases a; cases b; cases c) (auto split: prod.splits)
qed

lemma acceptable_reads_back:
  assumes "acceptable (Some (d, m, y))"
  shows "getDate tz (newDate tz y (m - 1) d) = d \<and> getMonth tz (newDate tz y (m - 1) d) = m - 1
     \<and> getFullYear tz (newDate tz y (m - 1) d) = y"
  using assms accept_iff [of d m y tz] by (simp add: roundTrips_def Let_def)

lemma digitsOnly_iff: "list_all isDigit g \<longleftrightarrow> digitsOnly g"
  unfolding list_all_iff isDigit_def digitsOnly_def by blast

lemma digitGroup_iff:
  "digitGroup 1 2 g \<longleftrightarrow> digitsOnly g \<and> length g \<in> {1, 2}"
  "digitGroup 4 4 g \<longleftrightarrow> digitsOnly g \<and> length g = 4"
  unfolding digitGroup_def digitsOnly_iff by auto

lemma digitsOnly_sep:
  assumes "digitsOnly g"
  shows "CHR ''-'' \<notin> set g" "CHR ''/'' \<notin> set g" "\<forall>c \<in> set g. \<not> isWhitespace c"
  using assms digit_not_sep unfolding digitsOnly_iff [symmetric] list_all_iff by blast+

lemma match_dash:
  assumes "dateGroups ds ms ys"
  shows "matchDMY CHR ''-'' (dateText DashDMY ds ms ys) = Some (parseInt ds, parseInt ms, parseInt ys)"
    "matchDMY CHR ''/'' (dateText DashDMY ds ms ys) = None"
    "matchISO (dateText DashDMY ds ms ys) = None"
proof -
  have g: "digitsOnly ds" "digitsOnly ms" "digitsOnly ys" "length ds \<in> {1, 2}"
    "length ms \<in> {1, 2}" "length ys = 4"
    using assms by (simp_all add: dateGroups_def)
  have s: "splitOn CHR ''-'' (dateText DashDMY ds ms ys) = [ds, ms, ys]"
    using splitOn_three [of "CHR ''-''" ds ms ys] digitsOnly_sep(1) g by simp
  have "CHR ''/'' \<notin> set (dateText DashDMY ds ms ys)"
    using digitsOnly_sep(2) g by simp
  then have t: "splitOn CHR ''/'' (dateText DashDMY ds ms ys) = [dateText DashDMY ds ms ys]"
    by (rule splitOn_single)
  show "matchDMY CHR ''-'' (dateText DashDMY ds ms ys) = Some (parseInt ds, parseInt ms, parseInt ys)"
    unfolding matchDMY_def s using g by (auto simp: digitGroup_def digitsOnly_iff)
  show "matchDMY CHR ''/'' (dateText DashDMY ds ms ys) = None"
    unfolding matchDMY_def t by simp
  show "matchISO (dateText DashDMY ds ms ys) = None"
    unfolding matchISO_def s using g by (auto simp: digitGroup_def digitsOnly_iff)
qed

lemma match_slash:
  assumes "dateGroups ds ms ys"
  shows "matchDMY CHR ''-'' (dateText SlashDMY ds ms ys) = None"
    "matchDMY CHR ''/'' (dateText SlashDMY ds ms ys) = Some (parseInt ds, parseInt ms, parseInt ys)"
    "matchISO (dateText SlashDMY ds ms ys) = None"
proof -
  have g: "digitsOnly ds" "digitsOnly ms" "digitsOnly ys" "length ds \<in> {1, 2}"
    "length ms \<in> {1, 2}" "length ys = 4"
    using assms by (simp_all add: dateGroups_def)
  have s: "splitOn CHR ''/'' (dateText SlashDMY ds ms ys) = [ds, ms, ys]"
    using splitOn_three [of "CHR ''/''" ds ms ys] digitsOnly_sep(2) g by simp
  have "CHR ''-'' \<notin> set (dateText SlashDMY ds ms ys)"
    using digitsOnly_sep(1) g by simp
  then have t: "splitOn CHR ''-'' (dateText SlashDMY ds ms ys) = [dateText SlashDMY ds ms ys]"
    by (rule splitOn_single)
  show "matchDMY CHR ''/'' (dateText SlashDMY ds ms ys) = Some (parseInt ds, parseInt ms, parseInt ys)"
    unfolding matchDMY_def s using g by (auto simp: digitGroup_def digitsOnly_iff)
  show "matchDMY CHR ''-'' (dateText SlashDMY ds ms ys) = None"
    unfolding matchDMY_def t by simp
  show "matchISO (dateText SlashDMY ds ms ys) = None"
    unfolding matchISO_def t by simp
qed

lemma match_iso:
  assumes "dateGroups ds ms ys"
  shows "matchDMY CHR ''-'' (dateText IsoYMD ds ms ys) = None"
    "matchDMY CHR ''/'' (dateText IsoYMD ds ms ys) = None"
    "matchISO (dateText IsoYMD ds ms ys) = Some (parseInt ds, parseInt ms, parseInt ys)"
proof -
  have g: "digitsOnly ds" "digitsOnly ms" "digitsOnly ys" "length ds \<in> {1, 2}"
    "length ms \<in> {1, 2}" "length ys = 4"
    using assms by (simp_all add: dateGroups_def)
  have s: "splitOn CHR ''-'' (dateText IsoYMD ds ms ys) = [ys, ms, ds]"
    using splitOn_three [of "CHR ''-''" ys ms ds] digitsOnly_sep(1) g by simp
  have "CHR ''/'' \<notin> set (dateText IsoYMD ds ms ys)"
    using digitsOnly_sep(2) g by simp
  then have t: "splitOn CHR ''/'' (dateText IsoYMD ds ms ys) = [dateText IsoYMD ds ms ys]"
    by (rule splitOn_single)
  show "matchISO (dateText IsoYMD ds ms ys) = Some (parseInt ds, parseInt ms, parseInt ys)"
    unfolding matchISO_def s using g by (auto simp: digitGroup_def digitsOnly_iff)
  show "matchDMY CHR ''/'' (dateText IsoYMD ds ms ys) = None"
    unfolding matchDMY_def t by simp
  show "matchDMY CHR ''-'' (dateText IsoYMD ds ms ys) = None"
    unfolding matchDMY_def s using g by (auto simp: digitGroup_def digitsOnly_iff)
qed

lemma matchDMY_text:
  assumes "matchDMY sep t = Some c"
  shows "\<exists>ds ms ys. dateGroups ds ms ys \<and> t = ds @ sep # ms @ sep # ys"
proof -
  from assms obtain a b e where s: "splitOn sep t = [a, b, e]"
    and g: "digitGroup 1 2 a \<and> digitGroup 1 2 b \<and> digitGroup 4 4 e"
    by (auto simp: matchDMY_def split: list.splits if_splits)
  from g have "dateGroups a b e" by (auto simp: digitGroup_def digitsOnly_iff dateGroups_def)
  with splitOn_three_conv [OF s] show ?thesis by blast
qed

lemma matchISO_text:
  assumes "matchISO t = Some c"
  shows "\<exists>ds ms ys. dateGroups ds ms ys \<and> t = dateText IsoYMD ds ms ys"
proof -
  from assms obtain a b e where s: "splitOn CHR ''-'' t = [a, b, e]"
    and g: "digitGroup 4 4 a \<and> digitGroup 1 2 b \<and> digitGroup 1 2 e"
    by (auto simp: matchISO_def split: list.splits if_splits)
  from g have "dateGroups e b a" by (auto simp: digitGroup_def digitsOnly_iff dateGroups_def)
  with splitOn_three_conv [OF s] show ?thesis by auto
qed

lemma dateText_nonempty: "dateGroups ds ms ys \<Longrightarrow> dateText f ds ms ys \<noteq> []"
  by (cases f) (auto simp: dateGroups_def)

lemma parseDate_text:
  assumes "dateGroups ds ms ys" "trim s = dateText f ds ms ys"
  shows "parseDate tz now s =
     (if inRange (parseInt ds) (parseInt ms) (parseInt ys)
         \<and> roundTrips tz (parseInt ds) (parseInt ms) (parseInt ys)
      then (newDate tz (parseInt ys) (parseInt ms - 1) (parseInt ds), [LogAttempt, LogParsed f])
      else (now, LogAttempt # rejection f (parseInt ds) (parseInt ms) (parseInt ys) @ [ErrorFailed]))"
proof -
  have n: "\<not> (s = [] \<or> trim s = [])"
    using dateText_nonempty [OF assms(1), of f] assms(2) by (auto simp: trim_Nil)
  show ?thesis
  proof (cases f)
    case DashDMY
    show ?thesis
      unfolding parseDate_def Let_def assms(2) DashDMY match_dash [OF assms(1)]
      using n by (simp add: rejection_def assms(2) DashDMY)
  next
    case SlashDMY
    show ?thesis
      unfolding parseDate_def Let_def assms(2) SlashDMY match_slash [OF assms(1)]
      using n by (simp add: rejection_def assms(2) SlashDMY)
  next
    case IsoYMD
    show ?thesis
      unfolding parseDate_def Let_def assms(2) IsoYMD match_iso [OF assms(1)]
      using n by (simp add: rejection_def assms(2) IsoYMD)
  qed
qed

lemma parseDate_other:
  "(\<exists>f ds ms ys. dateGroups ds ms ys \<and> trim s = dateText f ds ms ys)
   \<or> parseDate tz now s = (now, if trim s = [] then [WarnEmpty] else [LogAttempt, ErrorFailed])"
proof (cases "trim s = []")
  case True
  then show ?thesis by (simp add: parseDate_def)
next
  case False
  then have n: "s \<noteq> []" by (auto simp: trim_Nil)
  show ?thesis
  proof (cases "matchDMY CHR ''-'' (trim s) = None \<and> matchDMY CHR ''/'' (trim s) = None
      \<and> matchISO (trim s) = None")
    case True
    then show ?thesis using False n by (simp add: parseDate_def)
  next
    case False
    then consider c where "matchDMY CHR ''-'' (trim s) = Some c"
      | c where "matchDMY CHR ''/'' (trim s) = Some c"
      | c where "matchISO (trim s) = Some c" by auto
    then have "\<exists>f ds ms ys. dateGroups ds ms ys \<and> trim s = dateText f ds ms ys"
    proof cases
      case 1
      from matchDMY_text [OF 1] obtain ds ms ys where
        "dateGroups ds ms ys" "trim s = dateText DashDMY ds ms ys" by auto
      then show ?thesis by blast
    next
      case 2
      from matchDMY_text [OF 2] obtain ds ms ys where
        "dateGroups ds ms ys" "trim s = dateText SlashDMY ds ms ys" by auto
      then show ?thesis by blast
    next
      case 3
      from matchISO_text [OF 3] show ?thesis by blast
    qed
    then show ?thesis by simp
  qed
qed

lemma parseDate_examples:
  "parseDate tz now ''05-01-2024'' = (newDate tz 2024 0 5, [LogAttempt, LogParsed DashDMY])"
  "parseDate tz now ''5/1/2024'' = (newDate tz 2024 0 5, [LogAttempt, LogParsed SlashDMY])"
  "parseDate tz now ''2024-01-05'' = (newDate tz 2024 0 5, [LogAttempt, LogParsed IsoYMD])"
  "parseDate tz now ''01-01-2025'' = (newDate tz 2025 0 1, [LogAttempt, LogParsed DashDMY])"
  "parseDate tz now ''30-02-2025'' = (now, [LogAttempt, WarnInvalidComponents, ErrorFailed])"
  "parseDate tz now ''01-01-1899'' = (now, [LogAttempt, WarnOutOfRange, ErrorFailed])"
proof -
  have g: "dateGroups ''05'' ''01'' ''2024''" "dateGroups ''5'' ''1'' ''2024''"
    "dateGroups ''01'' ''01'' ''2025''" "dateGroups ''30'' ''02'' ''2025''"
    "dateGroups ''01'' ''01'' ''1899''"
    by code_simp+
  have t: "trim ''05-01-2024'' = dateText DashDMY ''05'' ''01'' ''2024''"
    "trim ''5/1/2024'' = dateText SlashDMY ''5'' ''1'' ''2024''"
    "trim ''2024-01-05'' = dateText IsoYMD ''05'' ''01'' ''2024''"
    "trim ''01-01-2025'' = dateText DashDMY ''01'' ''01'' ''2025''"
    "trim ''30-02-2025'' = dateText DashDMY ''30'' ''02'' ''2025''"
    "trim ''01-01-1899'' = dateText DashDMY ''01'' ''01'' ''1899''"
    by code_simp+
  have p: "parseInt ''05'' = 5" "parseInt ''01'' = 1" "parseInt ''2024'' = 2024"
    "parseInt ''5'' = 5" "parseInt ''1'' = 1" "parseInt ''2025'' = 2025"
    "parseInt ''30'' = 30" "parseInt ''02'' = 2" "parseInt ''1899'' = 1899"
    by code_simp+
  have r: "inRange 5 1 2024" "inRange 1 1 2025" "inRange 30 2 2025" "\<not> inRange 1 1 1899"
    by code_simp+
  have d: "5 \<le> daysInMonth 2024 1" "1 \<le> daysInMonth 2025 1" "\<not> 30 \<le> daysInMonth 2025 2"
    by code_simp+
  have rt: "roundTrips tz 5 1 2024" "roundTrips tz 1 1 2025" "\<not> roundTrips tz 30 2 2025"
    using r d by (simp_all add: roundTrips_iff)
  show "parseDate tz now ''05-01-2024'' = (newDate tz 2024 0 5, [LogAttempt, LogParsed DashDMY])"
    unfolding parseDate_text [OF g(1) t(1)] p using r rt by simp
  show "parseDate tz now ''5/1/2024'' = (newDate tz 2024 0 5, [LogAttempt, LogParsed SlashDMY])"
    unfolding parseDate_text [OF g(2) t(2)] p using r rt by simp
  show "parseDate tz now ''2024-01-05'' = (newDate tz 2024 0 5, [LogAttempt, LogParsed IsoYMD])"
    unfolding parseDate_text [OF g(1) t(3)] p using r rt by simp
  show "parseDate tz now ''01-01-2025'' = (newDate tz 2025 0 1, [LogAttempt, LogParsed DashDMY])"
    unfolding parseDate_text [OF g(3) t(4)] p using r rt by simp
  show "parseDate tz now ''30-02-2025'' = (now, [LogAttempt, WarnInvalidComponents, ErrorFailed])"
    unfolding parseDate_text [OF g(4) t(5)] p using r rt by (simp add: rejection_def)
  show "parseDate tz now ''01-01-1899'' = (now, [LogAttempt, WarnOutOfRange, ErrorFailed])"
    unfolding parseDate_text [OF g(5) t(6)] p using r rt by (simp add: rejection_def)
qed

lemma bad_lines:
  "splitOn newline (trim badDateCsv) = [''Title,Date'', ''Advent,30-02-2025'', ''Epiphany,01-01-2025'']"
  by code_simp

lemma bad_parse:
  "parseCSV env badDateCsv =
     foldl (importRow env (columnMap (headersOf ''Title,Date''))) []
       [(1, ''Advent,30-02-2025''), (2, ''Epiphany,01-01-2025'')]"
proof -
  have z: "zip [1..<3] [''Advent,30-02-2025'', ''Epiphany,01-01-2025'']
      = [(1, ''Advent,30-02-2025''), (2, ''Epiphany,01-01-2025'')]"
    by code_simp
  have l: "length [''Title,Date'', ''Advent,30-02-2025'', ''Epiphany,01-01-2025''] = 3" by simp
  have n: "\<not> (3::nat) < 2" by simp
  have "parseCSV env badDateCsv
      = (if (3::nat) < 2 then []
         else foldl (importRow env (columnMap (headersOf
                  (hd [''Title,Date'', ''Advent,30-02-2025'', ''Epiphany,01-01-2025'']))))
                [] (zip [1..<3] (tl [''Title,Date'', ''Advent,30-02-2025'', ''Epiphany,01-01-2025''])))"
    by (simp only: parseCSV_def Let_def bad_lines l)
  then show ?thesis by (simp only: n if_False list.sel z)
qed

lemma bad_rows:
  "\<not> rowBlank ''Advent,30-02-2025''" "\<not> rowBlank ''Epiphany,01-01-2025''"
  "rowTitle (columnMap (headersOf ''Title,Date'')) ''Advent,30-02-2025'' = ''Advent''"
  "rowTitle (columnMap (headersOf ''Title,Date'')) ''Epiphany,01-01-2025'' = ''Epiphany''"
  "getValue (rowValues ''Advent,30-02-2025'') (col_date (columnMap (headersOf ''Title,Date''))) []
     = ''30-02-2025''"
  "getValue (rowValues ''Epiphany,01-01-2025'') (col_date (columnMap (headersOf ''Title,Date''))) []
     = ''01-01-2025''"
  "toLowerCase ''Advent'' \<noteq> toLowerCase ''Epiphany''"
  by code_simp+

lemma bad_fold:
  "foldl (importRow env (columnMap (headersOf ''Title,Date''))) []
       [(i, ''Advent,30-02-2025''), (j, ''Epiphany,01-01-2025'')]
     = [rowSermon env (columnMap (headersOf ''Title,Date'')) i ''Advent,30-02-2025'',
        rowSermon env (columnMap (headersOf ''Title,Date'')) j ''Epiphany,01-01-2025'']"
  by (simp add: importRow_cases bad_rows sameTitle_def rowSermon_title)

lemma rowSermon_date: "date (rowSermon env cm i line) = rowDate env cm i line"
  by (simp add: rowSermon_def)

lemma bad_result:
  "map (\<lambda>s. (title s, date s)) (parseCSV env badDateCsv)
     = [(''Advent'', clock env 1), (''Epiphany'', newDate (tzOffset env) 2025 0 1)]"
  unfolding bad_parse bad_fold
  by (simp add: rowSermon_title rowSermon_date bad_rows rowDate_def parseDate_examples)

text \<open>C4: a date cell that, trimmed, is a day of one or two digits, a month of one or
  two digits and a year of four digits written as DD-MM-YYYY or as DD/MM/YYYY, or the
  same groups written as YYYY-MM-DD, is read as that day, month and year; the candidate
  is accepted exactly when the day is in [1,31], the month in [1,12], the year in
  [1900,2100] and the date built from them reads back as the same day, month and year,
  and then the parser returns that date and logs the format that read it; a cell that is
  none of the three texts, or whose candidate is discarded, gets the current date and a
  warning or an error in the console. In a zone with a fixed offset the read-back check
  holds exactly when the day exists in the month, so 30-02-2025 is rejected. The formats
  are tried in the order dash, slash, ISO: the parser returns the first acceptable
  candidate of that list. The import goes on after such a row: every non-blank row adds
  its one preaching instance, dated by the parser, and the file \<open>badDateCsv\<close> yields
  both its sermons, the first one dated by the clock.\<close>

theorem parseDate_formats:
  "(dateGroups ds ms ys \<and> trim s = dateText f ds ms ys \<longrightarrow>
      parseDate tz now s =
        (if inRange (parseInt ds) (parseInt ms) (parseInt ys)
            \<and> roundTrips tz (parseInt ds) (parseInt ms) (parseInt ys)
         then (newDate tz (parseInt ys) (parseInt ms - 1) (parseInt ds), [LogAttempt, LogParsed f])
         else (now, LogAttempt # rejection f (parseInt ds) (parseInt ms) (parseInt ys)
                      @ [ErrorFailed])))
   \<and> ((\<exists>f ds ms ys. dateGroups ds ms ys \<and> trim s = dateText f ds ms ys)
        \<or> parseDate tz now s = (now, if trim s = [] then [WarnEmpty] else [LogAttempt, ErrorFailed]))
   \<and> (inRange d m y \<longrightarrow> (roundTrips tz d m y \<longleftrightarrow> d \<le> daysInMonth y m))
   \<and> fst (parseDate tz now s) =
       (case firstAcceptable (trim s) of
          Some (d, m, y) \<Rightarrow> newDate tz y (m - 1) d
        | None \<Rightarrow> now)
   \<and> (acceptable (Some (d, m, y)) \<longleftrightarrow> inRange d m y \<and> roundTrips tz d m y)
   \<and> parseDate tz now ''05-01-2024'' = (newDate tz 2024 0 5, [LogAttempt, LogParsed DashDMY])
   \<and> parseDate tz now ''5/1/2024'' = (newDate tz 2024 0 5, [LogAttempt, LogParsed SlashDMY])
   \<and> parseDate tz now ''2024-01-05'' = (newDate tz 2024 0 5, [LogAttempt, LogParsed IsoYMD])
   \<and> parseDate tz now ''30-02-2025'' = (now, [LogAttempt, WarnInvalidComponents, ErrorFailed])
   \<and> parseDate tz now ''01-01-1899'' = (now, [LogAttempt, WarnOutOfRange, ErrorFailed])
   \<and> rowDate env cm i line =
       fst (parseDate (tzOffset env) (clock env i) (getValue (rowValues line) (col_date cm) []))
   \<and> instanceCount (importRow env cm ss (i, line))
       = instanceCount ss + (if rowBlank line then 0 else 1)
   \<and> map (\<lambda>s. (title s, date s)) (parseCSV env badDateCsv)
       = [(''Advent'', clock env 1), (''Epiphany'', newDate (tzOffset env) 2025 0 1)]"
proof -
  have 1: "dateGroups ds ms ys \<and> trim s = dateText f ds ms ys \<longrightarrow>
      parseDate tz now s =
        (if inRange (parseInt ds) (parseInt ms) (parseInt ys)
            \<and> roundTrips tz (parseInt ds) (parseInt ms) (parseInt ys)
         then (newDate tz (parseInt ys) (parseInt ms - 1) (parseInt ds), [LogAttempt, LogParsed f])
         else (now, LogAttempt # rejection f (parseInt ds) (parseInt ms) (parseInt ys)
                      @ [ErrorFailed]))"
    using parseDate_text [of ds ms ys s f tz now] by blast
  have 2: "inRange d m y \<longrightarrow> (roundTrips tz d m y \<longleftrightarrow> d \<le> daysInMonth y m)"
    using roundTrips_iff [of d m y tz] by blast
  have 3: "rowDate env cm i line =
       fst (parseDate (tzOffset env) (clock env i) (getValue (rowValues line) (col_date cm) []))"
    by (simp add: rowDate_def)
  show ?thesis
    by (intro conjI 1 2 3 parseDate_other parseDate_spec accept_iff parseDate_examples
        importRow_count bad_result)
qed

text \<open>In universal time with the clock at 777: the fifth of January 2024 written in
  each of the three formats is the time value 1704412800000 (an hour earlier one hour
  east of Greenwich); 31/04/2024 and 30-02-2025 name no day and ``January 5'' is no date
  text, so the clock's value is returned and an error logged; 29-02-2024 exists. The
  import of \<open>badDateCsv\<close> goes on to its second row.\<close>

theorem parseDate_formats_witness:
  "dateGroups ''05'' ''01'' ''2024'' \<and> inRange 5 1 2024 \<and> 5 \<le> daysInMonth 2024 1
   \<and> trim '' 05-01-2024 '' = dateText DashDMY ''05'' ''01'' ''2024''
   \<and> parseDate 0 777 '' 05-01-2024 '' = (1704412800000, [LogAttempt, LogParsed DashDMY])
   \<and> dateGroups ''5'' ''1'' ''2024''
   \<and> trim ''5/1/2024'' = dateText SlashDMY ''5'' ''1'' ''2024''
   \<and> parseDate 0 777 ''5/1/2024'' = (1704412800000, [LogAttempt, LogParsed SlashDMY])
   \<and> trim ''2024-01-05'' = dateText IsoYMD ''05'' ''01'' ''2024''
   \<and> parseDate 0 777 ''2024-01-05'' = (1704412800000, [LogAttempt, LogParsed IsoYMD])
   \<and> parseDate 3600000 777 ''2024-01-05'' = (1704409200000, [LogAttempt, LogParsed IsoYMD])
   \<and> dateGroups ''31'' ''04'' ''2024'' \<and> inRange 31 4 2024 \<and> \<not> 31 \<le> daysInMonth 2024 4
   \<and> trim ''31/04/2024'' = dateText SlashDMY ''31'' ''04'' ''2024''
   \<and> parseDate 0 777 ''31/04/2024'' = (777, [LogAttempt, ErrorFailed])
   \<and> inRange 30 2 2025 \<and> \<not> roundTrips 0 30 2 2025
   \<and> inRange 29 2 2024 \<and> roundTrips 0 29 2 2024
   \<and> parseDate 0 777 ''30-02-2025'' = (777, [LogAttempt, WarnInvalidComponents, ErrorFailed])
   \<and> parseDate 0 777 ''January 5'' = (777, [LogAttempt, ErrorFailed])
   \<and> map (\<lambda>s. (title s, date s)) (parseCSV env0 badDateCsv)
       = [(''Advent'', 0), (''Epiphany'', 1735689600000)]"
proof -
  have g: "dateGroups ''05'' ''01'' ''2024''" "dateGroups ''5'' ''1'' ''2024''"
    "dateGroups ''31'' ''04'' ''2024''"
    by code_simp+
  have t: "trim '' 05-01-2024 '' = dateText DashDMY ''05'' ''01'' ''2024''"
    "trim ''5/1/2024'' = dateText SlashDMY ''5'' ''1'' ''2024''"
    "trim ''2024-01-05'' = dateText IsoYMD ''05'' ''01'' ''2024''"
    "trim ''31/04/2024'' = dateText SlashDMY ''31'' ''04'' ''2024''"
    by code_simp+
  have p: "parseInt ''05'' = 5" "parseInt ''01'' = 1" "parseInt ''2024'' = 2024"
    "parseInt ''5'' = 5" "parseInt ''1'' = 1" "parseInt ''31'' = 31" "parseInt ''04'' = 4"
    by code_simp+
  have r: "inRange 5 1 2024" "inRange 31 4 2024" "inRange 30 2 2025" "inRange 29 2 2024"
    by code_simp+
  have d: "5 \<le> daysInMonth 2024 1" "\<not> 31 \<le> daysInMonth 2024 4"
    "\<not> 30 \<le> daysInMonth 2025 2" "29 \<le> daysInMonth 2024 2"
    by code_simp+
  have n: "newDate 0 2024 0 5 = 1704412800000" "newDate 3600000 2024 0 5 = 1704409200000"
    "newDate (tzOffset env0) 2025 0 1 = 1735689600000"
    by code_simp+
  have k: "clock env0 i = 0" for i by (simp add: env0_def)
  have j: "rejection SlashDMY 31 4 2024 = []" by code_simp
  have o: "parseDate 0 777 ''January 5'' = (777, [LogAttempt, ErrorFailed])" by code_simp
  have r1: "roundTrips tz 5 1 2024" for tz
    using parseDate_formats [where d = 5 and m = 1 and y = 2024 and tz = tz] r(1) d(1) by simp
  have r2: "\<not> roundTrips 0 31 4 2024"
    using parseDate_formats [where d = 31 and m = 4 and y = 2024 and tz = 0] r(2) d(2) by simp
  have r3: "\<not> roundTrips 0 30 2 2025"
    using parseDate_formats [where d = 30 and m = 2 and y = 2025 and tz = 0] r(3) d(3) by simp
  have r4: "roundTrips 0 29 2 2024"
    using parseDate_formats [where d = 29 and m = 2 and y = 2024 and tz = 0] r(4) d(4) by simp
  have a: "parseDate 0 777 '' 05-01-2024 '' = (1704412800000, [LogAttempt, LogParsed DashDMY])"
    using parseDate_formats [where ds = "''05''" and ms = "''01''" and ys = "''2024''"
        and s = "'' 05-01-2024 ''" and f = DashDMY and tz = 0 and now = 777]
      g(1) t(1) r(1) r1 [of 0] by (simp add: p n)
  have b: "parseDate 0 777 ''5/1/2024'' = (1704412800000, [LogAttempt, LogParsed SlashDMY])"
    using parseDate_formats [where ds = "''5''" and ms = "''1''" and ys = "''2024''"
        and s = "''5/1/2024''" and f = SlashDMY and tz = 0 and now = 777]
      g(2) t(2) r(1) r1 [of 0] by (simp add: p n)
  have c: "parseDate 0 777 ''2024-01-05'' = (1704412800000, [LogAttempt, LogParsed IsoYMD])"
    using parseDate_formats [where ds = "''05''" and ms = "''01''" and ys = "''2024''"
        and s = "''2024-01-05''" and f = IsoYMD and tz = 0 and now = 777]
      g(1) t(3) r(1) r1 [of 0] by (simp add: p n)
  have c': "parseDate 3600000 777 ''2024-01-05'' = (1704409200000, [LogAttempt, LogParsed IsoYMD])"
    using parseDate_formats [where ds = "''05''" and ms = "''01''" and ys = "''2024''"
        and s = "''2024-01-05''" and f = IsoYMD and tz = 3600000 and now = 777]
      g(1) t(3) r(1) r1 [of 3600000] by (simp add: p n)
  have e: "parseDate 0 777 ''31/04/2024'' = (777, [LogAttempt, ErrorFailed])"
    using parseDate_formats [where ds = "''31''" and ms = "''04''" and ys = "''2024''"
        and s = "''31/04/2024''" and f = SlashDMY and tz = 0 and now = 777]
      g(3) t(4) r2 j by (simp add: p)
  have f: "parseDate 0 777 ''30-02-2025'' = (777, [LogAttempt, WarnInvalidComponents, ErrorFailed])"
    using parseDate_formats [where tz = 0 and now = 777] by blast
  have h: "map (\<lambda>s. (title s, date s)) (parseCSV env0 badDateCsv)
       = [(''Advent'', 0), (''Epiphany'', 1735689600000)]"
    using parseDate_formats [where env = env0] by (simp add: n k)
  from g t r d a b c c' e r3 r4 f o h show ?thesis by simp
qed

section \<open>Merging rows by title\<close>

lemma hope_lines: "splitOn newline (trim hopeCsv) = [''Title,Date,Summary'', hopeRow1, hopeRow2]"
  by code_simp

lemma hope_parse:
  "parseCSV env hopeCsv = foldl (importRow env hopeColumns) [] [(1, hopeRow1), (2, hopeRow2)]"
proof -
  have z: "zip [1..<3] [hopeRow1, hopeRow2] = [(1, hopeRow1), (2, hopeRow2)]"
    by code_simp
  have l: "length [''Title,Date,Summary'', hopeRow1, hopeRow2] = 3" by simp
  have n: "\<not> (3::nat) < 2" by simp
  have "parseCSV env hopeCsv
      = (if (3::nat) < 2 then []
         else foldl (importRow env (columnMap (headersOf (hd [''Title,Date,Summary'', hopeRow1, hopeRow2])))) []
                (zip [1..<3] (tl [''Title,Date,Summary'', hopeRow1, hopeRow2])))"
    by (simp only: parseCSV_def Let_def hope_lines l)
  then show ?thesis by (simp only: n if_False list.sel z hopeColumns_def)
qed

lemma hope_rows:
  "\<not> rowBlank hopeRow1" "\<not> rowBlank hopeRow2"
  "rowTitle hopeColumns hopeRow1 = ''Hope''" "rowTitle hopeColumns hopeRow2 = ''Hope''"
  "getValue (rowValues hopeRow1) (col_date hopeColumns) [] = ''05-01-2025''"
  "getValue (rowValues hopeRow2) (col_date hopeColumns) [] = ''01-12-2024''"
  "firstAcceptable (trim ''05-01-2025'') = Some (5, 1, 2025)"
  "firstAcceptable (trim ''01-12-2024'') = Some (1, 12, 2024)"
  by code_simp+

lemma hope_dates:
  "rowDate env hopeColumns i hopeRow1 = newDate (tzOffset env) 2025 0 5"
  "rowDate env hopeColumns j hopeRow2 = newDate (tzOffset env) 2024 11 1"
  by (simp_all add: rowDate_def parseDate_spec hope_rows)

lemma hope_order: "newDate tz 2024 11 1 < newDate tz 2025 0 5"
proof -
  have "MakeDay 2024 11 1 = 20058" "MakeDay 2025 0 5 = 20093" by code_simp+
  then show ?thesis by (simp add: newDate_def msPerDay_def)
qed

lemma hope_fold:
  "foldl (importRow env hopeColumns) [] [(i, hopeRow1), (j, hopeRow2)] =
     [mergeInstance (rowInstance env hopeColumns j hopeRow2 (randomId env j))
        (rowSermon env hopeColumns i hopeRow1)]"
  by (simp add: importRow_cases hope_rows sameTitle_def rowSermon_title)

lemma rowInstance_date: "instance_date (rowInstance env cm i line ident) = rowDate env cm i line"
  by (simp add: rowInstance_def)

lemma rowSermon_history:
  "historyOf (rowSermon env cm i line) = [rowInstance env cm i line (stampId env i)]"
  by (simp add: rowSermon_def historyOf_def)

lemma hope_result:
  "map (\<lambda>s. (title s, date s, map instance_date (historyOf s))) (parseCSV env hopeCsv)
     = [(''Hope'', newDate (tzOffset env) 2024 11 1,
         [newDate (tzOffset env) 2025 0 5, newDate (tzOffset env) 2024 11 1])]"
  using hope_order [of "tzOffset env"] unfolding hope_parse hope_fold
  by (simp add: mergeInstance_title rowSermon_title hope_rows
      mergeInstance_date mergeInstance_history rowSermon_history rowInstance_date hope_dates
      min_def)








lemma foldl_importRow_count:
  "instanceCount (foldl (importRow env cm) ss rows)
     = instanceCount ss + length (filter (\<lambda>r. \<not> rowBlank (snd r)) rows)"
proof (induction rows arbitrary: ss)
  case Nil
  then show ?case by simp
next
  case (Cons r rows)
  obtain i line where r: "r = (i, line)" by (cases r)
  show ?case by (simp add: Cons.IH r importRow_count)
qed

lemma parseCSV_count:
  "instanceCount (parseCSV env csv)
     = length (filter (\<lambda>l. \<not> rowBlank l) (tl (splitOn newline (trim csv))))"
proof -
  define lines where "lines = splitOn newline (trim csv)"
  show ?thesis
  proof (cases "length lines < 2")
    case True
    then have "tl lines = []" by (cases lines) auto
    with True show ?thesis
      by (simp add: parseCSV_def Let_def lines_def [symmetric] instanceCount_def)
  next
    case False
    define rows where "rows = zip [1..<length lines] (tl lines)"
    have "length [1..<length lines] = length (tl lines)" by simp
    then have m: "map snd rows = tl lines"
      unfolding rows_def by (rule map_snd_zip)
    have g: "length (filter (\<lambda>r. \<not> rowBlank (snd r)) rs)
        = length (filter (\<lambda>l. \<not> rowBlank l) (map snd rs))" for rs :: "(nat \<times> string) list"
      by (induction rs) auto
    have p: "parseCSV env csv = foldl (importRow env (columnMap (headersOf (hd lines)))) [] rows"
      using False by (simp add: parseCSV_def Let_def lines_def [symmetric] rows_def)
    have z: "instanceCount [] = 0" by (simp add: instanceCount_def)
    show ?thesis
      unfolding p foldl_importRow_count g m z lines_def by simp
  qed
qed

text \<open>C3: an import never holds two sermons whose titles agree up to case; a non-blank
  row whose title is already there changes only the first sermon of that title, whose
  history gets the row's instance appended at its end and whose date becomes the
  earliest date of the history, and the number of sermons stays; every non-blank row
  adds exactly one instance; and the two-row file of ``Hope'' gives one sermon ``Hope''
  with the instances of 5 January 2025 and 1 December 2024, in this order, dated
  1 December 2024.\<close>

theorem merge_by_title:
  "distinct (map (\<lambda>s. toLowerCase (title s)) (parseCSV env csv))
   \<and> (\<not> rowBlank line \<and> find (sameTitle (rowTitle cm line)) ss = Some existing \<longrightarrow>
        (\<exists>pre post. ss = pre @ existing # post
           \<and> (\<forall>x \<in> set pre. \<not> sameTitle (rowTitle cm line) x)
           \<and> importRow env cm ss (i, line)
               = pre @ mergeInstance (rowInstance env cm i line (randomId env i)) existing # post)
        \<and> length (importRow env cm ss (i, line)) = length ss
        \<and> title (mergeInstance (rowInstance env cm i line (randomId env i)) existing)
            = title existing
        \<and> historyOf (mergeInstance (rowInstance env cm i line (randomId env i)) existing)
            = historyOf existing @ [rowInstance env cm i line (randomId env i)]
        \<and> date (mergeInstance (rowInstance env cm i line (randomId env i)) existing)
            = Min (instance_date `
                set (historyOf existing @ [rowInstance env cm i line (randomId env i)])))
   \<and> instanceCount (parseCSV env csv)
       = length (filter (\<lambda>l. \<not> rowBlank l) (tl (splitOn newline (trim csv))))
   \<and> map (\<lambda>s. (title s, date s, map instance_date (historyOf s))) (parseCSV env hopeCsv)
       = [(''Hope'', newDate (tzOffset env) 2024 11 1,
           [newDate (tzOffset env) 2025 0 5, newDate (tzOffset env) 2024 11 1])]
   \<and> getFullYear (tzOffset env) (newDate (tzOffset env) 2024 11 1) = 2024
   \<and> getMonth (tzOffset env) (newDate (tzOffset env) 2024 11 1) = 11
   \<and> getDate (tzOffset env) (newDate (tzOffset env) 2024 11 1) = 1"
proof -
  let ?inst = "rowInstance env cm i line (randomId env i)"
  have row: "(\<exists>pre post. ss = pre @ existing # post
           \<and> (\<forall>x \<in> set pre. \<not> sameTitle (rowTitle cm line) x)
           \<and> importRow env cm ss (i, line) = pre @ mergeInstance ?inst existing # post)
        \<and> length (importRow env cm ss (i, line)) = length ss"
    if b: "\<not> rowBlank line" and f: "find (sameTitle (rowTitle cm line)) ss = Some existing"
  proof -
    from updateFirst_split [OF f, of "mergeInstance ?inst"] obtain pre post where
      p: "ss = pre @ existing # post" "\<forall>y \<in> set pre. \<not> sameTitle (rowTitle cm line) y"
        "updateFirst (sameTitle (rowTitle cm line)) (mergeInstance ?inst) ss
           = pre @ mergeInstance ?inst existing # post"
      by blast
    have e: "importRow env cm ss (i, line) = pre @ mergeInstance ?inst existing # post"
      using b f p(3) by (simp add: importRow_cases)
    have "length (pre @ mergeInstance ?inst existing # post) = length (pre @ existing # post)"
      by simp
    then have "length (importRow env cm ss (i, line)) = length ss"
      by (simp only: e p(1) [symmetric])
    with p e show ?thesis by blast
  qed
  have a: "acceptable (Some (1, 12, 2024))" by code_simp
  have d: "date (mergeInstance ?inst existing)
      = Min (instance_date ` set (historyOf existing @ [?inst]))"
    using mergeInstance_date [of ?inst existing] by (simp only: mergeInstance_history)
  from parseCSV_distinct [of env csv] row mergeInstance_title [of ?inst existing]
    mergeInstance_history [of ?inst existing] d parseCSV_count [of env csv]
    hope_result [of env] acceptable_reads_back [OF a, of "tzOffset env"]
  show ?thesis by simp
qed

text \<open>The second row of the ``Hope'' file meets the sermon of the first: one sermon
  remains; in universal time its date is 1733011200000, the first of December 2024.\<close>

theorem merge_by_title_witness:
  "\<not> rowBlank hopeRow2
   \<and> find (sameTitle (rowTitle hopeColumns hopeRow2)) [rowSermon env0 hopeColumns 1 hopeRow1]
       = Some (rowSermon env0 hopeColumns 1 hopeRow1)
   \<and> length (importRow env0 hopeColumns [rowSermon env0 hopeColumns 1 hopeRow1] (2, hopeRow2)) = 1
   \<and> map (\<lambda>s. (title s, date s, map instance_date (historyOf s))) (parseCSV env0 hopeCsv)
       = [(''Hope'', 1733011200000, [1736035200000, 1733011200000])]"
proof -
  have a: "\<not> rowBlank hopeRow2" by code_simp
  have b: "find (sameTitle (rowTitle hopeColumns hopeRow2)) [rowSermon env0 hopeColumns 1 hopeRow1]
       = Some (rowSermon env0 hopeColumns 1 hopeRow1)" by code_simp
  have c: "newDate (tzOffset env0) 2024 11 1 = 1733011200000"
    "newDate (tzOffset env0) 2025 0 5 = 1736035200000" by code_simp+
  from merge_by_title [of env0 hopeCsv hopeRow2 hopeColumns
      "[rowSermon env0 hopeColumns 1 hopeRow1]" "rowSermon env0 hopeColumns 1 hopeRow1" 2] a b
  have "length (importRow env0 hopeColumns [rowSermon env0 hopeColumns 1 hopeRow1] (2, hopeRow2))
      = length [rowSermon env0 hopeColumns 1 hopeRow1]"
    and "map (\<lambda>s. (title s, date s, map instance_date (historyOf s))) (parseCSV env0 hopeCsv)
       = [(''Hope'', newDate (tzOffset env0) 2024 11 1,
           [newDate (tzOffset env0) 2025 0 5, newDate (tzOffset env0) 2024 11 1])]"
    by blast+
  with a b c show ?thesis by simp
qed

section \<open>Header detection and defaults\<close>




section \<open>Export followed by import\<close>

lemma stripQuotes_id: "dquote \<notin> set f \<Longrightarrow> stripQuotes f = f"
  by (induction f) (auto simp: stripQuotes_def)

lemma set_joinWith: "set (joinWith sep xs) \<subseteq> set sep \<union> \<Union> (set ` set xs)"
  by (induction sep xs rule: joinWith.induct) auto

lemma hd_joinWith: "xs \<noteq> [] \<Longrightarrow> hd xs \<noteq> [] \<Longrightarrow> hd (joinWith sep xs) = hd (hd xs)"
  by (cases xs) (simp_all add: joinWith_Cons)

lemma last_joinWith':
  "xs \<noteq> [] \<Longrightarrow> last xs \<noteq> [] \<Longrightarrow>
     joinWith sep xs \<noteq> [] \<and> last (joinWith sep xs) = last (last xs)"
  by (induction sep xs rule: joinWith.induct) auto

lemma last_joinWith:
  "xs \<noteq> [] \<Longrightarrow> last xs \<noteq> [] \<Longrightarrow> last (joinWith sep xs) = last (last xs)"
  by (simp add: last_joinWith')

lemma digitChar_values:
  "digitChar 0 = CHR ''0''" "digitChar 1 = CHR ''1''" "digitChar 2 = CHR ''2''"
  "digitChar 3 = CHR ''3''" "digitChar 4 = CHR ''4''" "digitChar 5 = CHR ''5''"
  "digitChar 6 = CHR ''6''" "digitChar 7 = CHR ''7''" "digitChar 8 = CHR ''8''"
  "digitChar 9 = CHR ''9''"
  by code_simp+

lemma isDigit_digitChar: "0 \<le> d \<Longrightarrow> d \<le> 9 \<Longrightarrow> isDigit (digitChar d)"
proof -
  assume "0 \<le> d" "d \<le> 9"
  then have "d = 0 \<or> d = 1 \<or> d = 2 \<or> d = 3 \<or> d = 4 \<or> d = 5 \<or> d = 6 \<or> d = 7 \<or> d = 8 \<or> d = 9"
    by arith
  then show ?thesis by (elim disjE; simp add: isDigit_def digitChar_values)
qed

lemma digitVal_digitChar: "0 \<le> d \<Longrightarrow> d \<le> 9 \<Longrightarrow> digitVal (digitChar d) = d"
  by (simp add: digitVal_def digitChar_def)

lemma length_padDigits: "length (padDigits k n) = k"
  by (induction k arbitrary: n) simp_all

lemma digits_padDigits: "list_all isDigit (padDigits k n)"
proof (induction k arbitrary: n)
  case 0
  then show ?case by simp
next
  case (Suc k)
  have "0 \<le> n mod 10" "n mod 10 \<le> 9" by simp_all
  then show ?case using Suc by (simp add: isDigit_digitChar)
qed

lemma parseInt_snoc: "parseInt (s @ [c]) = 10 * parseInt s + digitVal c"
  by (simp add: parseInt_def)

lemma parseInt_padDigits: "0 \<le> n \<Longrightarrow> n < 10 ^ k \<Longrightarrow> parseInt (padDigits k n) = n"
proof (induction k arbitrary: n)
  case 0
  then show ?case by (simp add: parseInt_def)
next
  case (Suc k)
  have "0 \<le> n div 10" "n div 10 < 10 ^ k" using Suc.prems by simp_all
  then have "parseInt (padDigits k (n div 10)) = n div 10" by (rule Suc.IH)
  moreover have "0 \<le> n mod 10" "n mod 10 \<le> 9" by simp_all
  ultimately show ?case by (simp add: parseInt_snoc digitVal_digitChar)
qed

lemma set_padDigits: "c \<in> set (padDigits k n) \<Longrightarrow> isDigit c"
  using digits_padDigits [of k n] by (simp add: list_all_iff)

lemma toISOString_day:
  assumes "0 \<le> YearFromDay (Day t)" "YearFromDay (Day t) \<le> 9999"
  shows "hd (splitOn CHR ''T'' (toISOString t)) = isoDay t"
proof -
  obtain y m d where c: "civil (Day t) = (y, m, d)" by (cases "civil (Day t)") auto
  then have y: "y = YearFromDay (Day t)" using civil_fields by blast
  have n: "CHR ''T'' \<notin> set (isoDay t)"
    using digit_not_sep by (auto simp: isoDay_def c dest!: set_padDigits)
  have "\<exists>rest. toISOString t = isoDay t @ CHR ''T'' # rest"
    using assms by (simp add: toISOString_def isoDay_def c y [symmetric] Let_def)
  then obtain rest where "toISOString t = isoDay t @ CHR ''T'' # rest" by blast
  then show ?thesis using n by (simp add: splitOn_head)
qed

lemma isoDay_parse:
  assumes "1900 \<le> YearFromDay (Day t)" "YearFromDay (Day t) \<le> 2100"
  shows "firstAcceptable (trim (isoDay t))
      = Some (snd (snd (civil (Day t))), fst (snd (civil (Day t))) + 1, fst (civil (Day t)))"
proof -
  obtain y m d where c: "civil (Day t) = (y, m, d)" by (cases "civil (Day t)") auto
  from civil_fields [OF c] have f: "MakeDay y m d = Day t" "0 \<le> m" "m \<le> 11" "1 \<le> d" "d \<le> 31"
    "y = YearFromDay (Day t)" by blast+
  define a where "a = padDigits 4 y"
  define b where "b = padDigits 2 (m + 1)"
  define e where "e = padDigits 2 d"
  have dg: "list_all isDigit a" "list_all isDigit b" "list_all isDigit e"
    "length a = 4" "length b = 2" "length e = 2"
    by (simp_all add: a_def b_def e_def digits_padDigits length_padDigits)
  have ns: "CHR ''-'' \<notin> set a" "CHR ''-'' \<notin> set b" "CHR ''-'' \<notin> set e"
    "CHR ''/'' \<notin> set a" "CHR ''/'' \<notin> set b" "CHR ''/'' \<notin> set e"
    using dg digit_not_sep by (auto simp: list_all_iff)
  have i: "isoDay t = joinWith ''-'' [a, b, e]"
    by (simp add: isoDay_def c a_def b_def e_def)
  have ne: "isoDay t \<noteq> []" using dg(4) unfolding i by (cases a) auto
  have hd: "hd (isoDay t) = hd a" and la: "last (isoDay t) = last e"
    using dg(4,6) unfolding i by (cases a; cases e; simp)+
  have "isDigit (hd a)" "isDigit (last e)"
    using dg by (cases a; cases e rule: rev_cases; simp)+
  then have tr: "trim (isoDay t) = isoDay t"
    using ne hd la digit_not_sep by (intro trim_id) auto
  have s1: "splitOn CHR ''-'' (isoDay t) = [a, b, e]"
    unfolding i using ns by (intro splitOn_join) simp_all
  have s2: "splitOn CHR ''/'' (isoDay t) = [isoDay t]"
    using ns unfolding i by (intro splitOn_single) auto
  have m1: "matchDMY CHR ''-'' (isoDay t) = None"
    by (simp add: matchDMY_def s1 digitGroup_def dg)
  have m2: "matchDMY CHR ''/'' (isoDay t) = None"
    by (simp add: matchDMY_def s2)
  have p: "parseInt a = y" "parseInt b = m + 1" "parseInt e = d"
    using f assms unfolding a_def b_def e_def by (simp_all add: parseInt_padDigits)
  have m3: "matchISO (isoDay t) = Some (d, m + 1, y)"
    by (simp add: matchISO_def s1 digitGroup_def dg p)
  have "civil (MakeDay y (m + 1 - 1) d) = (y, m + 1 - 1, d)" by (simp add: f(1) c)
  then have "d \<le> daysInMonth y (m + 1)"
    using civil_MakeDay [of "m + 1" d y] f by simp
  then have acc: "acceptable (Some (d, m + 1, y))"
    using f assms by (simp add: acceptable_def)
  have n: "\<not> acceptable None" by (simp add: acceptable_def)
  show ?thesis
    by (simp add: tr firstAcceptable_def m1 m2 m3 acc n c)
qed

lemma isoDay_date:
  assumes "1900 \<le> YearFromDay (Day t)" "YearFromDay (Day t) \<le> 2100"
  shows "fst (parseDate tz now (isoDay t)) = Day t * msPerDay - tz"
proof -
  obtain y m d where c: "civil (Day t) = (y, m, d)" by (cases "civil (Day t)") auto
  from civil_fields [OF c] have f: "MakeDay y m d = Day t" "y = YearFromDay (Day t)" by blast+
  have "fst (parseDate tz now (isoDay t)) = newDate tz y m d"
    by (simp add: parseDate_spec isoDay_parse [OF assms] c)
  also have "\<dots> = Day t * msPerDay - tz"
    using f assms by (simp add: newDate_def)
  finally show ?thesis .
qed

lemma csvRow_fields:
  assumes "exportable s"
  shows "csvRow s = joinWith '','' (map quoted (exportFields s))"
proof -
  have "hd (splitOn CHR ''T'' (toISOString (date s))) = isoDay (date s)"
    using assms by (intro toISOString_day) (simp_all add: exportable_def)
  moreover have "(case references s of None \<Rightarrow> [] | Some r \<Rightarrow> joinWith '';'' r)
      = joinWith '';'' (refsOf s)"
    by (simp add: refsOf_def split: option.splits)
  ultimately show ?thesis by (simp add: csvRow_def exportFields_def)
qed

lemma plain_isoDay: "plain (isoDay t) \<and> trim (isoDay t) = isoDay t \<and> isoDay t \<noteq> []"
proof -
  obtain y m d where c: "civil (Day t) = (y, m, d)" by (cases "civil (Day t)") auto
  have i: "isoDay t = padDigits 4 y @ ''-'' @ padDigits 2 (m + 1) @ ''-'' @ padDigits 2 d"
    by (simp add: isoDay_def c)
  have p: "plain (isoDay t)"
    using digit_not_sep unfolding plain_def i by (auto dest!: set_padDigits)
  have "length (padDigits 4 y) = 4" "length (padDigits 2 d) = 2" by (simp_all add: length_padDigits)
  then have "padDigits 4 y \<noteq> []" "padDigits 2 d \<noteq> []" by auto
  then obtain a as bs b where a: "padDigits 4 y = a # as" and b: "padDigits 2 d = bs @ [b]"
    by (metis list.exhaust rev_exhaust)
  have "isDigit a" "isDigit b"
    using set_padDigits [of a 4 y] set_padDigits [of b 2 d] by (simp_all add: a b)
  then have "\<not> isWhitespace (hd (isoDay t))" "\<not> isWhitespace (last (isoDay t))" "isoDay t \<noteq> []"
    using digit_not_sep unfolding i a b by simp_all
  then show ?thesis using p by (simp add: trim_id)
qed

lemma listItems_join:
  assumes "list_all listItem ts"
  shows "plain (joinWith '';'' ts) \<and> trim (joinWith '';'' ts) = joinWith '';'' ts
     \<and> splitList (joinWith '';'' ts) = ts"
proof (cases "ts = []")
  case True
  then show ?thesis by (simp add: plain_def trim_Nil splitList_def)
next
  case False
  have it: "\<forall>t \<in> set ts. tidy t \<and> t \<noteq> [] \<and> CHR '';'' \<notin> set t"
    using assms by (simp add: list_all_iff listItem_def)
  have p: "plain (joinWith '';'' ts)"
    using it set_joinWith [of "'';''" ts] unfolding plain_def tidy_def by auto
  have h: "hd ts \<in> set ts" "last ts \<in> set ts" using False by simp_all
  then have e: "hd ts \<noteq> []" "last ts \<noteq> []" "trim (hd ts) = hd ts" "trim (last ts) = last ts"
    using it by (auto simp: tidy_def)
  have j: "joinWith '';'' ts \<noteq> []" using False e(2) by (simp add: last_joinWith')
  have "\<not> isWhitespace (hd (joinWith '';'' ts))" "\<not> isWhitespace (last (joinWith '';'' ts))"
    using False e trim_edges [of "hd ts"] trim_edges [of "last ts"]
    by (simp_all add: hd_joinWith last_joinWith)
  then have t: "trim (joinWith '';'' ts) = joinWith '';'' ts" using j by (intro trim_id)
  have "splitOn CHR '';'' (joinWith '';'' ts) = ts"
    using False it splitOn_join [of ts "CHR '';''"] by simp
  moreover have "filter (\<lambda>t. 0 < length t) ts = ts" using it by (simp add: filter_id_conv)
  ultimately have "splitList (joinWith '';'' ts) = ts" using j by (simp add: splitList_def)
  with p t show ?thesis by simp
qed

lemma exportFields_plain:
  assumes "exportable s"
  shows "\<forall>f \<in> set (exportFields s). plain f"
  using assms plain_isoDay [of "date s"] listItems_join [of "tags s"] listItems_join [of "refsOf s"]
  by (simp add: exportFields_def exportable_def tidy_def)

lemma rowValues_csvRow:
  assumes "exportable s"
  shows "rowValues (csvRow s) =
     [title s, isoDay (date s), orElse (series s) [], trim (orElse (summary s) []),
      joinWith '';'' (tags s), joinWith '';'' (refsOf s),
      orElse (sermon_type s) [], orElse (place s) []]"
proof -
  have q: "\<forall>f \<in> set (exportFields s). dquote \<notin> set f"
    using exportFields_plain [OF assms] by (simp add: plain_def)
  have "parseCSVLine (csvRow s) = map trim (exportFields s)"
    unfolding csvRow_fields [OF assms] parseCSVLine_def
    using parseCSVLoop_quoted_fields [OF q, of "[]"] by (simp add: exportFields_def)
  moreover have "stripQuotes (trim f) = trim f" if "f \<in> set (exportFields s)" for f
    using q that set_trim [of f] by (intro stripQuotes_id) auto
  ultimately have "rowValues (csvRow s) = map trim (exportFields s)"
    by (simp add: rowValues_def)
  then show ?thesis
    using assms plain_isoDay [of "date s"] listItems_join [of "tags s"]
      listItems_join [of "refsOf s"]
    by (simp add: exportFields_def exportable_def tidy_def)
qed

lemma exportColumns_values:
  "col_title exportColumns = 0" "col_date exportColumns = 1" "col_series exportColumns = 2"
  "col_summary exportColumns = 3" "col_tags exportColumns = 4" "col_references exportColumns = 5"
  "col_type exportColumns = 6" "col_place exportColumns = 7"
  by code_simp+

lemma getValue_at:
  "getValue [v0, v1, v2, v3, v4, v5, v6, v7] 0 d = orElse (Some v0) d"
  "getValue [v0, v1, v2, v3, v4, v5, v6, v7] 1 d = orElse (Some v1) d"
  "getValue [v0, v1, v2, v3, v4, v5, v6, v7] 2 d = orElse (Some v2) d"
  "getValue [v0, v1, v2, v3, v4, v5, v6, v7] 3 d = orElse (Some v3) d"
  "getValue [v0, v1, v2, v3, v4, v5, v6, v7] 4 d = orElse (Some v4) d"
  "getValue [v0, v1, v2, v3, v4, v5, v6, v7] 5 d = orElse (Some v5) d"
  "getValue [v0, v1, v2, v3, v4, v5, v6, v7] 6 d = orElse (Some v6) d"
  "getValue [v0, v1, v2, v3, v4, v5, v6, v7] 7 d = orElse (Some v7) d"
  by (simp_all add: getValue_def)

lemma orElse_simps:
  "orElse (Some v) [] = v"
  "orElse (Some (orElse w [])) d = orElse w d"
  by (auto simp: orElse_def split: option.splits)

lemma rowBlank_csvRow: "exportable s \<Longrightarrow> \<not> rowBlank (csvRow s)"
  by (simp add: rowBlank_def rowValues_csvRow exportable_def)

lemma rowTitle_csvRow: "exportable s \<Longrightarrow> rowTitle exportColumns (csvRow s) = title s"
  by (simp add: rowTitle_def rowValues_csvRow exportColumns_values getValue_at orElse_def
      exportable_def)

lemma rowDate_csvRow:
  "exportable s \<Longrightarrow>
     rowDate env exportColumns i (csvRow s) = Day (date s) * msPerDay - tzOffset env"
  by (simp add: rowDate_def rowValues_csvRow exportColumns_values getValue_at orElse_simps
      isoDay_date exportable_def)

lemma rowSermon_csvRow:
  assumes "exportable s"
  shows "rowSermon env exportColumns i (csvRow s) = reimported env i s"
proof -
  have sr: "(let v = orElse (series s) [] in if v = [] then None else Some v)
      = (if truthy (series s) then series s else None)"
    by (auto simp: orElse_def truthy_def Let_def split: option.splits)
  have l: "splitList (joinWith '';'' (tags s)) = tags s"
    "splitList (joinWith '';'' (refsOf s)) = refsOf s"
    using assms listItems_join [of "tags s"] listItems_join [of "refsOf s"]
    by (simp_all add: exportable_def)
  show ?thesis
    unfolding rowSermon_def rowInstance_def rowDate_csvRow [OF assms] rowTitle_csvRow [OF assms]
      rowValues_csvRow [OF assms] exportColumns_values getValue_at orElse_simps l sr
      reimported_def
    by simp
qed

lemma fold_fresh:
  assumes "distinct (map (\<lambda>s. toLowerCase (title s)) acc
             @ map (\<lambda>r. toLowerCase (rowTitle cm (snd r))) rows)"
    and "\<forall>r \<in> set rows. \<not> rowBlank (snd r)"
  shows "foldl (importRow env cm) acc rows
     = acc @ map (\<lambda>r. rowSermon env cm (fst r) (snd r)) rows"
  using assms
proof (induction rows arbitrary: acc)
  case Nil
  then show ?case by simp
next
  case (Cons r rows)
  obtain i line where r: "r = (i, line)" by (cases r)
  have "toLowerCase (rowTitle cm line) \<notin> (\<lambda>s. toLowerCase (title s)) ` set acc"
    using Cons.prems(1) by (auto simp: r)
  then have "\<forall>s \<in> set acc. toLowerCase (title s) \<noteq> toLowerCase (rowTitle cm line)"
    by force
  then have f: "find (sameTitle (rowTitle cm line)) acc = None"
    by (simp add: find_None_iff sameTitle_def)
  have step: "importRow env cm acc (i, line) = acc @ [rowSermon env cm i line]"
    using Cons.prems(2) f by (simp add: r importRow_cases)
  have "distinct (map (\<lambda>s. toLowerCase (title s)) (acc @ [rowSermon env cm i line])
             @ map (\<lambda>r. toLowerCase (rowTitle cm (snd r))) rows)"
    using Cons.prems(1) by (simp add: r rowSermon_title)
  then have "foldl (importRow env cm) (acc @ [rowSermon env cm i line]) rows
     = (acc @ [rowSermon env cm i line]) @ map (\<lambda>r. rowSermon env cm (fst r) (snd r)) rows"
    using Cons.prems(2) by (intro Cons.IH) simp_all
  then show ?case by (simp add: step r)
qed

lemma header_line:
  "newline \<notin> set (joinWith '','' csvHeaders)" "joinWith '','' csvHeaders \<noteq> []"
  "\<not> isWhitespace (hd (joinWith '','' csvHeaders))"
  "\<not> isWhitespace (last (joinWith '','' csvHeaders))"
  by code_simp+

lemma set_quoted: "set (quoted f) = insert dquote (set f)"
  by (auto simp: quoted_def)

lemma csvRow_shape:
  assumes "exportable s"
  shows "newline \<notin> set (csvRow s) \<and> csvRow s \<noteq> [] \<and> last (csvRow s) = dquote"
proof -
  have p: "\<forall>f \<in> set (exportFields s). newline \<notin> set f"
    using exportFields_plain [OF assms] by (simp add: plain_def)
  have "set (csvRow s) \<subseteq> set '','' \<union> \<Union> (set ` set (map quoted (exportFields s)))"
    unfolding csvRow_fields [OF assms] by (rule set_joinWith)
  then have n: "newline \<notin> set (csvRow s)" using p by (fastforce simp: set_quoted)
  have l: "last (map quoted (exportFields s)) = quoted (orElse (place s) [])"
    by (simp add: exportFields_def)
  have "joinWith '','' (map quoted (exportFields s)) \<noteq> []
      \<and> last (joinWith '','' (map quoted (exportFields s)))
          = last (last (map quoted (exportFields s)))"
    by (rule last_joinWith') (simp_all add: exportFields_def quoted_def)
  then show ?thesis using n unfolding csvRow_fields [OF assms] l by (simp add: quoted_def)
qed

lemma sermonsToCsv_lines:
  assumes "\<forall>s \<in> set ss. exportable s"
  shows "splitOn newline (trim (sermonsToCsv ss)) = joinWith '','' csvHeaders # map csvRow ss"
proof -
  let ?H = "joinWith '','' csvHeaders"
  let ?L = "?H # map csvRow ss"
  have c: "sermonsToCsv ss = joinWith [newline] ?L" by (simp add: sermonsToCsv_def)
  have la: "last ?L \<noteq> [] \<and> \<not> isWhitespace (last (last ?L))"
  proof (cases "ss = []")
    case True
    then show ?thesis using header_line by simp
  next
    case False
    then have "last ?L = csvRow (last ss)" by (simp add: last_map)
    moreover have "exportable (last ss)" using False assms by simp
    ultimately show ?thesis using csvRow_shape [of "last ss"] by (simp add: isWhitespace_def)
  qed
  have j: "joinWith [newline] ?L \<noteq> []" "last (joinWith [newline] ?L) = last (last ?L)"
    using la last_joinWith' [of ?L "[newline]"] by simp_all
  have h: "hd (joinWith [newline] ?L) = hd ?H"
    using header_line(2) hd_joinWith [of ?L "[newline]"] by simp
  have t: "trim (joinWith [newline] ?L) = joinWith [newline] ?L"
    using j h la header_line(3) by (intro trim_id) simp_all
  have "\<forall>x \<in> set ?L. newline \<notin> set x"
    using assms header_line(1) csvRow_shape by auto
  then have "splitOn newline (joinWith [newline] ?L) = ?L"
    by (intro splitOn_join) simp_all
  then show ?thesis by (simp only: c t)
qed

lemma parseCSV_export:
  assumes "\<forall>s \<in> set ss. exportable s"
  shows "parseCSV env (sermonsToCsv ss)
     = foldl (importRow env exportColumns) [] (zip [1 ..< Suc (length ss)] (map csvRow ss))"
  by (simp add: parseCSV_def Let_def sermonsToCsv_lines [OF assms] exportColumns_def)

lemma parseCSV_sermonsToCsv:
  assumes "\<forall>s \<in> set ss. exportable s"
    and "distinct (map (\<lambda>s. toLowerCase (title s)) ss)"
  shows "parseCSV env (sermonsToCsv ss)
     = map (\<lambda>r. reimported env (fst r) (snd r)) (zip [1 ..< Suc (length ss)] ss)"
proof -
  define idx where "idx = [1 ..< Suc (length ss)]"
  define zs where "zs = zip idx ss"
  define rows where "rows = zip idx (map csvRow ss)"
  have li: "length idx = length ss" unfolding idx_def by (simp del: upt_Suc)
  have z: "rows = map (\<lambda>r. (fst r, csvRow (snd r))) zs"
    unfolding rows_def zs_def by (simp only: zip_map2 case_prod_unfold)
  have e: "exportable (snd r)" if "r \<in> set zs" for r
    using that assms(1) unfolding zs_def by (metis prod.collapse set_zip_rightD)
  have ms: "map snd zs = ss" unfolding zs_def using li by (rule map_snd_zip)
  have "map (\<lambda>r. toLowerCase (rowTitle exportColumns (snd r))) rows
      = map (\<lambda>r. toLowerCase (title (snd r))) zs"
    unfolding z using e by (simp add: rowTitle_csvRow)
  also have "\<dots> = map (\<lambda>s. toLowerCase (title s)) (map snd zs)"
    by simp
  finally have "distinct (map (\<lambda>r. toLowerCase (rowTitle exportColumns (snd r))) rows)"
    using assms(2) by (simp only: ms)
  then have d: "distinct (map (\<lambda>s. toLowerCase (title s)) []
      @ map (\<lambda>r. toLowerCase (rowTitle exportColumns (snd r))) rows)"
    by simp
  have b: "\<forall>r \<in> set rows. \<not> rowBlank (snd r)"
    unfolding z using e by (auto simp: rowBlank_csvRow)
  have "parseCSV env (sermonsToCsv ss) = foldl (importRow env exportColumns) [] rows"
    unfolding rows_def idx_def by (rule parseCSV_export [OF assms(1)])
  also have "\<dots> = [] @ map (\<lambda>r. rowSermon env exportColumns (fst r) (snd r)) rows"
    using d b by (rule fold_fresh)
  also have "\<dots> = map (\<lambda>r. reimported env (fst r) (snd r)) zs"
    unfolding z using e by (simp add: rowSermon_csvRow)
  finally show ?thesis unfolding zs_def idx_def .
qed

lemma reimported_nth:
  assumes "\<forall>s \<in> set ss. exportable s"
    and "distinct (map (\<lambda>s. toLowerCase (title s)) ss)"
    and "k < length ss"
  shows "parseCSV env (sermonsToCsv ss) ! k = reimported env (Suc k) (ss ! k)"
proof -
  define idx where "idx = [1 ..< Suc (length ss)]"
  have li: "length idx = length ss" unfolding idx_def by (simp del: upt_Suc)
  have ik: "idx ! k = Suc k" unfolding idx_def using assms(3) by (simp del: upt_Suc)
  have "parseCSV env (sermonsToCsv ss) = map (\<lambda>r. reimported env (fst r) (snd r)) (zip idx ss)"
    unfolding idx_def by (rule parseCSV_sermonsToCsv [OF assms(1,2)])
  then show ?thesis using assms(3) li ik by simp
qed

text \<open>C2, as the code has it: for sermons that are exportable and whose titles differ
  pairwise up to case, importing the export gives one sermon per input sermon, in
  order, with the same title, the same calendar day as date when local time is
  universal time, the same series (an empty one becoming absent), the same tags and
  the same references as sets, the same type (an absent one becoming empty) and the
  same place (an empty or absent one becoming ``Unknown Location''); versions and
  image are absent and the history is a single instance.\<close>

theorem export_import_roundtrip:
  assumes "\<forall>s \<in> set ss. exportable s"
    and "distinct (map (\<lambda>s. toLowerCase (title s)) ss)"
  shows "length (parseCSV env (sermonsToCsv ss)) = length ss
     \<and> (\<forall>k < length ss.
          title (parseCSV env (sermonsToCsv ss) ! k) = title (ss ! k)
          \<and> (tzOffset env = 0 \<longrightarrow>
                Day (date (parseCSV env (sermonsToCsv ss) ! k)) = Day (date (ss ! k)))
          \<and> series (parseCSV env (sermonsToCsv ss) ! k)
              = (if truthy (series (ss ! k)) then series (ss ! k) else None)
          \<and> set (tags (parseCSV env (sermonsToCsv ss) ! k)) = set (tags (ss ! k))
          \<and> set (refsOf (parseCSV env (sermonsToCsv ss) ! k)) = set (refsOf (ss ! k))
          \<and> sermon_type (parseCSV env (sermonsToCsv ss) ! k)
              = Some (orElse (sermon_type (ss ! k)) [])
          \<and> place (parseCSV env (sermonsToCsv ss) ! k)
              = Some (orElse (place (ss ! k)) ''Unknown Location'')
          \<and> versions (parseCSV env (sermonsToCsv ss) ! k) = None
          \<and> image (parseCSV env (sermonsToCsv ss) ! k) = None
          \<and> length (historyOf (parseCSV env (sermonsToCsv ss) ! k)) = 1)"
proof -
  have l: "length (parseCSV env (sermonsToCsv ss)) = length ss"
    unfolding parseCSV_sermonsToCsv [OF assms] by (simp del: upt_Suc)
  have d: "Day (x * msPerDay) = x" for x by (simp add: Day_def msPerDay_def)
  have "title (reimported env i s) = title s
      \<and> (tzOffset env = 0 \<longrightarrow> Day (date (reimported env i s)) = Day (date s))
      \<and> series (reimported env i s) = (if truthy (series s) then series s else None)
      \<and> set (tags (reimported env i s)) = set (tags s)
      \<and> set (refsOf (reimported env i s)) = set (refsOf s)
      \<and> sermon_type (reimported env i s) = Some (orElse (sermon_type s) [])
      \<and> place (reimported env i s) = Some (orElse (place s) ''Unknown Location'')
      \<and> versions (reimported env i s) = None
      \<and> image (reimported env i s) = None
      \<and> length (historyOf (reimported env i s)) = 1" for i s
    by (simp add: reimported_def refsOf_def historyOf_def d)
  then show ?thesis using l reimported_nth [OF assms] by simp
qed

text \<open>The sample catalog is exportable and comes back with its three titles, days and
  places.\<close>

theorem export_import_roundtrip_witness:
  "list_all exportable sampleSermons
   \<and> distinct (map (\<lambda>s. toLowerCase (title s)) sampleSermons)
   \<and> tzOffset env0 = 0
   \<and> length (parseCSV env0 (sermonsToCsv sampleSermons)) = 3
   \<and> title (parseCSV env0 (sermonsToCsv sampleSermons) ! 0) = ''The Power of Faith''
   \<and> Day (date (parseCSV env0 (sermonsToCsv sampleSermons) ! 0)) = 19737
   \<and> place (parseCSV env0 (sermonsToCsv sampleSermons) ! 0) = Some ''Main Sanctuary''"
proof -
  have a: "list_all exportable sampleSermons" by code_simp
  have b: "distinct (map (\<lambda>s. toLowerCase (title s)) sampleSermons)" by code_simp
  have c: "tzOffset env0 = 0" by (simp add: env0_def)
  have d: "length sampleSermons = 3" "(0::nat) < 3" by code_simp+
  have e: "title (sampleSermons ! 0) = ''The Power of Faith''"
    "Day (date (sampleSermons ! 0)) = 19737"
    "Some (orElse (place (sampleSermons ! 0)) ''Unknown Location'') = Some ''Main Sanctuary''"
    by code_simp+
  from a have a': "\<forall>s \<in> set sampleSermons. exportable s" by (simp add: list_all_iff)
  from export_import_roundtrip [OF a' b, of env0] c d
  have "length (parseCSV env0 (sermonsToCsv sampleSermons)) = 3"
    and "title (parseCSV env0 (sermonsToCsv sampleSermons) ! 0) = title (sampleSermons ! 0)"
    and "Day (date (parseCSV env0 (sermonsToCsv sampleSermons) ! 0))
          = Day (date (sampleSermons ! 0))"
    and "place (parseCSV env0 (sermonsToCsv sampleSermons) ! 0)
          = Some (orElse (place (sampleSermons ! 0)) ''Unknown Location'')"
    by simp_all
  with a b c e show ?thesis by simp
qed

text \<open>C2 as stated fails for two sermons of one title: the import merges their rows
  into one sermon, and no sermon of the result has the second sermon's place.\<close>

theorem export_import_counterexample:
  "length (parseCSV env0 (sermonsToCsv twinSermons)) = 1
   \<and> \<not> (\<exists>r \<in> set (parseCSV env0 (sermonsToCsv twinSermons)).
          title r = title (twinSermons ! 1) \<and> place r = place (twinSermons ! 1))"
  by code_simp

text \<open>The export writes the day of universal time and the import reads it as a local
  day: one hour east of Greenwich the date imported from 01-12-2024 is exported as
  2024-11-30.\<close>

lemma export_day_east_of_greenwich:
  "hd (splitOn CHR ''T'' (toISOString (fst (parseDate 3600000 0 ''01-12-2024'')))) = ''2024-11-30''"
  by code_simp

section \<open>Properties of the series reconciler\<close>

lemma usedSeriesNames_iff: "t \<in> usedSeriesNames sermons \<longleftrightarrow> referenced sermons t"
proof
  assume "t \<in> usedSeriesNames sermons"
  then obtain sermon where "sermon \<in> set sermons" "truthy (series sermon)"
      "trim (the (series sermon)) \<noteq> []" "t = the (series sermon)"
    by (auto simp: usedSeriesNames_def)
  then show "referenced sermons t"
    by (cases "series sermon") (auto simp: referenced_def truthy_def)
next
  assume "referenced sermons t"
  then obtain sermon where s: "sermon \<in> set sermons" "series sermon = Some t" "t \<noteq> []"
      "trim t \<noteq> []"
    by (auto simp: referenced_def)
  then have "truthy (series sermon) \<and> trim (the (series sermon)) \<noteq> []"
    by (simp add: truthy_def)
  with s show "t \<in> usedSeriesNames sermons"
    unfolding usedSeriesNames_def by force
qed

lemma cleanup_is_filter:
  "cleanupOrphanedSeries sermons ss = filter (\<lambda>s. referenced sermons (series_title s)) ss"
  by (simp add: cleanupOrphanedSeries_def usedSeriesNames_iff)

text \<open>C6: the series reconciler is idempotent: reconciling an already reconciled series
  list against the same sermons changes nothing.\<close>

theorem cleanupOrphanedSeries_idempotent:
  "cleanupOrphanedSeries s (cleanupOrphanedSeries s q) = cleanupOrphanedSeries s q"
  by (simp add: cleanup_is_filter)

text \<open>C10: the reconciler is extensionally the plain keep-if-referenced filter; the
  branch for the demo titles decides by the same predicate as the general branch.\<close>

theorem cleanupOrphanedSeries_plain_filter:
  "cleanupOrphanedSeries sermons ss = keepReferenced sermons ss"
  by (simp add: cleanup_is_filter keepReferenced_def)

text \<open>C7: after deleting a sermon the series collection is exactly the old collection
  restricted to the series whose title some remaining sermon still carries in a
  non-blank \<open>series\<close> field; nothing is created; and when the deleted sermon was the
  only one referring to ``Faith Series'', no series of that title is left.\<close>

theorem handleDeleteSermon_series:
  "cat_sermons (handleDeleteSermon i st) = filter (\<lambda>s. sermon_id s \<noteq> i) (cat_sermons st)
   \<and> cat_series (handleDeleteSermon i st) =
       filter (\<lambda>s. referenced (cat_sermons (handleDeleteSermon i st)) (series_title s))
         (cat_series st)
   \<and> set (cat_series (handleDeleteSermon i st)) \<subseteq> set (cat_series st)
   \<and> ((\<forall>s \<in> set (cat_sermons st). series s = Some ''Faith Series'' \<longrightarrow> sermon_id s = i)
        \<longrightarrow> ''Faith Series'' \<notin> series_title ` set (cat_series (handleDeleteSermon i st)))"
  by (auto simp: handleDeleteSermon_def Let_def cleanup_is_filter referenced_def)

text \<open>In \<open>twoCatalog\<close> sermon 1 is the only one in ``Faith Series'': deleting it leaves
  the ``Love Series'' record alone.\<close>

theorem handleDeleteSermon_series_witness:
  "[s \<leftarrow> cat_sermons twoCatalog. series s = Some ''Faith Series'' \<and> sermon_id s \<noteq> ''1''] = []
   \<and> ''Faith Series'' \<notin> series_title ` set (cat_series (handleDeleteSermon ''1'' twoCatalog))
   \<and> map series_title (cat_series twoCatalog) = [''Faith Series'', ''Love Series'']
   \<and> map series_title (cat_series (handleDeleteSermon ''1'' twoCatalog)) = [''Love Series'']"
proof -
  have e: "[s \<leftarrow> cat_sermons twoCatalog.
             series s = Some ''Faith Series'' \<and> sermon_id s \<noteq> ''1''] = []"
    by code_simp
  then have h: "\<forall>s \<in> set (cat_sermons twoCatalog).
      series s = Some ''Faith Series'' \<longrightarrow> sermon_id s = ''1''"
    by (auto simp: filter_empty_conv)
  from handleDeleteSermon_series [of "''1''" twoCatalog] h
  have c: "''Faith Series'' \<notin> series_title ` set (cat_series (handleDeleteSermon ''1'' twoCatalog))"
    by blast
  have b: "map series_title (cat_series twoCatalog) = [''Faith Series'', ''Love Series'']"
    by code_simp
  have r: "map series_title (cat_series (handleDeleteSermon ''1'' twoCatalog)) = [''Love Series'']"
    by code_simp
  from e c b r show ?thesis by blast
qed

end
